theory Spec2Isabelle
  imports Main "HOL-Library.Word" "HOL-Library.Sublist"
begin

unbundle bit_operations_syntax

section \<open>Errors\<close>

text \<open>
  The context that \<open>errors.Wrap\<close> and \<open>errors.Wrapf\<close> put in front of an error.
  The two formatted messages of \<open>Fetch\<close> keep their arguments instead of a rendered text.
\<close>

datatype wrapctx =
    Ctx string
  | CtxInvalidMetadataDestination "string list" string

datatype err =
    ErrAuthenticationRequired
  | ErrUseLastResponse
  | ENOENT "string list"
  | ENOTDIR "string list"
  | EISDIR "string list"
  | EEXIST "string list"
  | ErrLibrary string
  | Wrap err wrapctx

section \<open>The file system\<close>

text \<open>
  A path is the list of its components below the root. A file system is an association
  list from paths to nodes; the first entry of a path is the one that counts. Symbolic
  links and access rights are not modelled; the permission bits are kept as data.
\<close>

type_synonym path = "string list"
type_synonym filemode = "32 word"

datatype node = File filemode string | Dir filemode

type_synonym filesys = "(path \<times> node) list"

datatype FileInfo = FileInfo (Name: string) (Mode: filemode) (IsDir: bool)

definition lookup :: "filesys \<Rightarrow> path \<Rightarrow> node option" where
  "lookup fs p = map_of fs p"

fun node_mode :: "node \<Rightarrow> filemode" where
  "node_mode (File m c) = m"
| "node_mode (Dir m) = m"

fun node_is_dir :: "node \<Rightarrow> bool" where
  "node_is_dir (File m c) = False"
| "node_is_dir (Dir m) = True"

definition info_of :: "path \<Rightarrow> node \<Rightarrow> FileInfo" where
  "info_of p n = FileInfo (if p = [] then [] else last p) (node_mode n) (node_is_dir n)"

text \<open>\<open>os.Stat\<close>.\<close>

definition Stat :: "path \<Rightarrow> filesys \<Rightarrow> err + FileInfo" where
  "Stat p fs = (case lookup fs p of None \<Rightarrow> Inl (ENOENT p) | Some n \<Rightarrow> Inr (info_of p n))"

text \<open>\<open>os.Mkdir\<close>: the parent must be a directory, the path must be free; the new directory
  gets the permission bits asked for, less the bits of the process umask.\<close>

definition Mkdir :: "filemode \<Rightarrow> path \<Rightarrow> filemode \<Rightarrow> filesys \<Rightarrow> err option \<times> filesys" where
  "Mkdir um p perm fs =
     (if p = [] then (Some (EEXIST p), fs)
      else case lookup fs (butlast p) of
          None \<Rightarrow> (Some (ENOENT p), fs)
        | Some (File m c) \<Rightarrow> (Some (ENOTDIR p), fs)
        | Some (Dir m) \<Rightarrow>
            (case lookup fs p of
               Some n \<Rightarrow> (Some (EEXIST p), fs)
             | None \<Rightarrow> (None, (p, Dir (perm AND NOT um)) # fs)))"

text \<open>\<open>os.MkdirAll\<close>, on the reversed path: a directory that is there is left as it is, a
  file in the way is an error, and otherwise the parent is made first.\<close>

fun MkdirAll_rev :: "filemode \<Rightarrow> string list \<Rightarrow> filemode \<Rightarrow> filesys \<Rightarrow> err option \<times> filesys" where
  "MkdirAll_rev um [] perm fs =
     (case lookup fs [] of
        Some (Dir m) \<Rightarrow> (None, fs)
      | Some (File m c) \<Rightarrow> (Some (ENOTDIR []), fs)
      | None \<Rightarrow> (Some (ENOENT []), fs))"
| "MkdirAll_rev um (c # rp) perm fs =
     (case lookup fs (rev (c # rp)) of
        Some (Dir m) \<Rightarrow> (None, fs)
      | Some (File m x) \<Rightarrow> (Some (ENOTDIR (rev (c # rp))), fs)
      | None \<Rightarrow>
          (case MkdirAll_rev um rp perm fs of
             (Some e, fs1) \<Rightarrow> (Some e, fs1)
           | (None, fs1) \<Rightarrow> Mkdir um (rev (c # rp)) perm fs1))"

definition MkdirAll :: "filemode \<Rightarrow> path \<Rightarrow> filemode \<Rightarrow> filesys \<Rightarrow> err option \<times> filesys" where
  "MkdirAll um p perm fs = MkdirAll_rev um (rev p) perm fs"

text \<open>\<open>os.ReadDir\<close>: the names of the entries of a directory. (The library sorts them by
  name; the order only fixes the order in which \<open>copyDir\<close> makes its copies.)\<close>

definition ReadDir :: "path \<Rightarrow> filesys \<Rightarrow> err + string list" where
  "ReadDir p fs =
     (case lookup fs p of
        None \<Rightarrow> Inl (ENOENT p)
      | Some (File m c) \<Rightarrow> Inl (ENOTDIR p)
      | Some (Dir m) \<Rightarrow>
          Inr (remdups (map (\<lambda>(q, n). last q) (filter (\<lambda>(q, n). q \<noteq> [] \<and> butlast q = p) fs))))"

text \<open>\<open>os.RemoveAll\<close>: the path and everything below it is gone; a path that is not
  there is no error.\<close>

definition RemoveAll :: "path \<Rightarrow> filesys \<Rightarrow> filesys" where
  "RemoveAll p fs = filter (\<lambda>(q, n). \<not> prefix p q) fs"

text \<open>\<open>os.Create\<close>: the file is made with mode 0666 (438) less the umask, or truncated when it
  is there already (its mode is then kept).\<close>

definition Create :: "filemode \<Rightarrow> path \<Rightarrow> filesys \<Rightarrow> err option \<times> filesys" where
  "Create um p fs =
     (if p = [] then (Some (EISDIR p), fs)
      else case lookup fs (butlast p) of
          None \<Rightarrow> (Some (ENOENT p), fs)
        | Some (File m c) \<Rightarrow> (Some (ENOTDIR p), fs)
        | Some (Dir m) \<Rightarrow>
            (case lookup fs p of
               Some (Dir m') \<Rightarrow> (Some (EISDIR p), fs)
             | Some (File m' c) \<Rightarrow> (None, (p, File m' []) # fs)
             | None \<Rightarrow> (None, (p, File (438 AND NOT um) []) # fs)))"

text \<open>Writing to an open file, and \<open>os.Chmod\<close>.\<close>

definition write_file :: "path \<Rightarrow> string \<Rightarrow> filesys \<Rightarrow> filesys" where
  "write_file p c fs =
     (case lookup fs p of Some (File m c0) \<Rightarrow> (p, File m (c0 @ c)) # fs | _ \<Rightarrow> fs)"

definition Chmod :: "path \<Rightarrow> filemode \<Rightarrow> filesys \<Rightarrow> err option \<times> filesys" where
  "Chmod p m fs =
     (case lookup fs p of
        None \<Rightarrow> (Some (ENOENT p), fs)
      | Some (File m0 c) \<Rightarrow> (None, (p, File m c) # fs)
      | Some (Dir m0) \<Rightarrow> (None, (p, Dir m) # fs))"

section \<open>copyFile, getFileInfos, copyDir\<close>

definition copyFile :: "filemode \<Rightarrow> path \<Rightarrow> path \<Rightarrow> filesys \<Rightarrow> err option \<times> filesys" where
  "copyFile um dstPath srcPath fs =
     (case lookup fs srcPath of
        None \<Rightarrow> (Some (ENOENT srcPath), fs)
      | Some src0 \<Rightarrow>
          (case Create um dstPath fs of
             (Some e, fs1) \<Rightarrow> (Some e, fs1)
           | (None, fs1) \<Rightarrow>
               (case lookup fs1 srcPath of
                  None \<Rightarrow> (Some (ENOENT srcPath), fs1)
                | Some (Dir m) \<Rightarrow> (Some (EISDIR srcPath), fs1)
                | Some (File m c) \<Rightarrow>
                    (let fs2 = write_file dstPath c fs1 in
                     case Stat srcPath fs2 of
                       Inl e \<Rightarrow> (Some e, fs2)
                     | Inr srcInfo \<Rightarrow> Chmod dstPath (Mode srcInfo) fs2))))"

text \<open>A directory entry is the path it was read at; \<open>entry.Info()\<close> looks the path up.\<close>

fun getFileInfos :: "path list \<Rightarrow> filesys \<Rightarrow> err + FileInfo list" where
  "getFileInfos [] fs = Inr []"
| "getFileInfos (entry # entries) fs =
     (case Stat entry fs of
        Inl e \<Rightarrow> Inl e
      | Inr info \<Rightarrow>
          (case getFileInfos entries fs of
             Inl e \<Rightarrow> Inl e
           | Inr fileInfos \<Rightarrow> Inr (info # fileInfos)))"

text \<open>\<open>copyDir\<close> calls itself on every subdirectory and need not return (a destination
  inside the source grows as it is read), so the model counts the depth of the calls and
  is \<open>None\<close> when the count runs out.\<close>

fun copyDir :: "nat \<Rightarrow> filemode \<Rightarrow> path \<Rightarrow> path \<Rightarrow> filesys \<Rightarrow> (err option \<times> filesys) option"
and copyEntries :: "nat \<Rightarrow> filemode \<Rightarrow> path \<Rightarrow> path \<Rightarrow> FileInfo list \<Rightarrow> filesys \<Rightarrow> (err option \<times> filesys) option"
where
  "copyDir 0 um dstDir srcDir fs = None"
| "copyDir (Suc k) um dstDir srcDir fs =
     (case Stat srcDir fs of
        Inl e \<Rightarrow> Some (Some e, fs)
      | Inr srcInfo \<Rightarrow>
          (case MkdirAll um dstDir (Mode srcInfo) fs of
             (Some e, fs1) \<Rightarrow> Some (Some e, fs1)
           | (None, fs1) \<Rightarrow>
               (case ReadDir srcDir fs1 of
                  Inl e \<Rightarrow> Some (Some e, fs1)
                | Inr entries \<Rightarrow>
                    (case getFileInfos (map (\<lambda>n. srcDir @ [n]) entries) fs1 of
                       Inl e \<Rightarrow> Some (Some e, fs1)
                     | Inr fileInfos \<Rightarrow> copyEntries k um dstDir srcDir fileInfos fs1))))"
| "copyEntries k um dstDir srcDir [] fs = Some (None, fs)"
| "copyEntries k um dstDir srcDir (fileInfo # fileInfos) fs =
     (if IsDir fileInfo then
        (case copyDir k um (dstDir @ [Name fileInfo]) (srcDir @ [Name fileInfo]) fs of
           None \<Rightarrow> None
         | Some (Some e, fs1) \<Rightarrow> Some (Some e, fs1)
         | Some (None, fs1) \<Rightarrow> copyEntries k um dstDir srcDir fileInfos fs1)
      else
        (case copyFile um (dstDir @ [Name fileInfo]) (srcDir @ [Name fileInfo]) fs of
           (Some e, fs1) \<Rightarrow> Some (Some e, fs1)
         | (None, fs1) \<Rightarrow> copyEntries k um dstDir srcDir fileInfos fs1))"

section \<open>The transport\<close>

datatype URL = URL string

record Request =
  req_url :: string

record HTTPTransport =
  Proxy :: "Request \<Rightarrow> err + URL option"

record Client =
  Transport :: HTTPTransport
  Timeout :: "64 word"
  CheckRedirect :: "Request \<Rightarrow> Request list \<Rightarrow> err option"

datatype transport = NewClient Client | DefaultClient

text \<open>\<open>time.Second\<close>, in nanoseconds, and \<open>http.ProxyURL\<close>.\<close>

definition Second :: "64 word" where
  "Second = 1000000000"

definition ProxyURL :: "URL \<Rightarrow> Request \<Rightarrow> err + URL option" where
  "ProxyURL fixedURL = (\<lambda>req. Inr (Some fixedURL))"

section \<open>url.Parse of the standard library\<close>

text \<open>
  \<open>getHttpsTransport\<close> leaves the decision whether the proxy address is well formed to
  \<open>url.Parse\<close> of Go's \<open>net/url\<close>. This is that function as far as it accepts or
  rejects an address: control bytes, the scheme, the colon in the first segment of a path
  without a scheme, and percent escapes in the path and the fragment. The check of an
  authority (what follows \<open>//\<close>) is an argument. The result keeps the address as it was
  given; an error stands for the \<open>url.Error\<close> with that cause.
\<close>

definition byte_of :: "char \<Rightarrow> nat" where
  "byte_of c = of_char c"

definition stringContainsCTLByte :: "string \<Rightarrow> bool" where
  "stringContainsCTLByte s = list_ex (\<lambda>c. byte_of c < 32 \<or> byte_of c = 127) s"

definition is_letter :: "char \<Rightarrow> bool" where
  "is_letter c = ((97 \<le> byte_of c \<and> byte_of c \<le> 122) \<or> (65 \<le> byte_of c \<and> byte_of c \<le> 90))"

definition is_scheme_char :: "char \<Rightarrow> bool" where
  "is_scheme_char c = ((48 \<le> byte_of c \<and> byte_of c \<le> 57) \<or> c = CHR ''+'' \<or> c = CHR ''-'' \<or> c = CHR ''.'')"

definition ishex :: "char \<Rightarrow> bool" where
  "ishex c = ((48 \<le> byte_of c \<and> byte_of c \<le> 57) \<or> (97 \<le> byte_of c \<and> byte_of c \<le> 102)
              \<or> (65 \<le> byte_of c \<and> byte_of c \<le> 70))"

text \<open>\<open>getScheme\<close>: the loop over the bytes of the address, at index \<open>i\<close>.\<close>

fun getScheme_at :: "nat \<Rightarrow> string \<Rightarrow> string \<Rightarrow> err + (string \<times> string)" where
  "getScheme_at i rawURL [] = Inr ([], rawURL)"
| "getScheme_at i rawURL (c # cs) =
     (if is_letter c then getScheme_at (Suc i) rawURL cs
      else if is_scheme_char c then (if i = 0 then Inr ([], rawURL) else getScheme_at (Suc i) rawURL cs)
      else if c = CHR '':'' then
        (if i = 0 then Inl (ErrLibrary ''missing protocol scheme'') else Inr (take i rawURL, cs))
      else Inr ([], rawURL))"

definition getScheme :: "string \<Rightarrow> err + (string \<times> string)" where
  "getScheme rawURL = getScheme_at 0 rawURL rawURL"

text \<open>\<open>unescape\<close> in the modes of a path and of a fragment fails only on a percent sign
  that is not followed by two hexadecimal digits.\<close>

fun bad_escape :: "string \<Rightarrow> bool" where
  "bad_escape [] = False"
| "bad_escape [c] = (c = CHR ''%'')"
| "bad_escape [c, d] = (c = CHR ''%'' \<or> d = CHR ''%'')"
| "bad_escape (c # a # b # cs) =
     (if c = CHR ''%'' then \<not> (ishex a \<and> ishex b) \<or> bad_escape cs else bad_escape (a # b # cs))"

definition has_prefix :: "string \<Rightarrow> string \<Rightarrow> bool" where
  "has_prefix s p = (take (length p) s = p)"

definition url_parse :: "(string \<Rightarrow> err option) \<Rightarrow> string \<Rightarrow> err option" where
  "url_parse parseAuthority rawURL =
     (if stringContainsCTLByte rawURL then Some (ErrLibrary ''net/url: invalid control character in URL'')
      else if rawURL = ''*'' then None
      else case getScheme rawURL of
          Inl e \<Rightarrow> Some e
        | Inr (scheme, rest0) \<Rightarrow>
            (let rest = takeWhile (\<lambda>c. c \<noteq> CHR ''?'') rest0 in
             if \<not> has_prefix rest ''/'' \<and> scheme \<noteq> [] then None
             else if \<not> has_prefix rest ''/'' \<and> CHR '':'' \<in> set (takeWhile (\<lambda>c. c \<noteq> CHR ''/'') rest)
               then Some (ErrLibrary ''first path segment in URL cannot contain colon'')
             else if has_prefix rest ''//'' \<and> (scheme \<noteq> [] \<or> \<not> has_prefix rest ''///'') then
               (let authority = takeWhile (\<lambda>c. c \<noteq> CHR ''/'') (drop 2 rest);
                    path = dropWhile (\<lambda>c. c \<noteq> CHR ''/'') (drop 2 rest)
                in case parseAuthority authority of
                     Some e \<Rightarrow> Some e
                   | None \<Rightarrow> (if bad_escape path then Some (ErrLibrary ''invalid URL escape'') else None))
             else if bad_escape rest then Some (ErrLibrary ''invalid URL escape'') else None))"

definition url_Parse_std :: "(string \<Rightarrow> err option) \<Rightarrow> string \<Rightarrow> err + URL" where
  "url_Parse_std parseAuthority rawURL =
     (let u = takeWhile (\<lambda>c. c \<noteq> CHR ''#'') rawURL;
          frag = drop (Suc (length u)) rawURL
      in case url_parse parseAuthority u of
           Some e \<Rightarrow> Inl e
         | None \<Rightarrow> (if bad_escape frag then Inl (ErrLibrary ''invalid URL escape'') else Inr (URL rawURL)))"

section \<open>What the program is given\<close>

datatype AuthMethod = NoAuth | BasicAuth string string | PublicKeys string string

type_synonym hash = "8 word list"

record RemoteConfig =
  rc_Name :: string
  rc_URLs :: "string list"

record Repository =
  repo_path :: path
  repo_remotes :: "RemoteConfig list"

record FetchOptions =
  RefSpecs :: "string list"
  Auth :: AuthMethod

record version =
  Commit :: string

record metadata =
  Repository :: string
  Revision :: string

record source =
  Type :: string
  Metadata :: metadata
  Version :: version

record project =
  Source :: source

text \<open>
  The keychain, the environment, the standard library's URL parser, the git library and
  the TOML encoder are outside the program. Their answers are the fields of \<open>env\<close>:
  what the keychain resolves, the temporary directory and the random names that
  \<open>os.MkdirTemp\<close> tries, the value of \<open>HTTPS_PROXY\<close> if it is set, the result of
  \<open>url.Parse\<close>, whether each git call fails, the files that a fetch and a checkout write
  (relative to the \<open>.git\<close> directory and to the working tree), whether \<open>os.RemoveAll\<close>
  fails, and the text the encoder produces.
\<close>

record env =
  Keychain_Resolve :: "string \<Rightarrow> err + AuthMethod"
  TempDir :: path
  temp_names :: "string list"
  HTTPS_PROXY :: "string option"
  url_Parse :: "string \<Rightarrow> err + URL"
  PlainInit_err :: "err option"
  CreateRemote_err :: "err option"
  remote_Fetch_result ::
    "RemoteConfig \<Rightarrow> FetchOptions \<Rightarrow> (string \<times> transport) list \<Rightarrow> err + (path \<times> node) list"
  Worktree_err :: "err option"
  ResolveRevision_result :: "string \<Rightarrow> err + hash"
  Checkout_result :: "hash \<Rightarrow> err + (path \<times> node) list"
  RemoveAll_err :: "path \<Rightarrow> err option"
  toml_Encode :: "project \<Rightarrow> err + string"

datatype log_line = LogCloning string string | LogSuccess string string path

text \<open>
  The state that \<open>Fetch\<close> changes: the file system, the process-wide registry of
  protocols of the git client, the fetches sent to the network, and the log. The
  umask is part of the process state and is only read.
\<close>

record world =
  files :: filesys
  umask :: filemode
  protocols :: "(string \<times> transport) list"
  fetch_calls :: "(Repository \<times> RemoteConfig \<times> FetchOptions) list"
  logs :: "log_line list"

section \<open>getHttpsTransport\<close>

definition getHttpsTransport :: "env \<Rightarrow> err + transport" where
  "getHttpsTransport E =
     (case HTTPS_PROXY E of
        Some httpsProxy \<Rightarrow>
          (case url_Parse E httpsProxy of
             Inl e \<Rightarrow> Inl (Wrap e (Ctx ''parsing HTTPS_PROXY url''))
           | Inr parsedUrl \<Rightarrow>
               Inr (NewClient
                 \<lparr> Transport = \<lparr> Proxy = ProxyURL parsedUrl \<rparr>,
                   Timeout = 15 * Second,
                   CheckRedirect = (\<lambda>req via. Some ErrUseLastResponse) \<rparr>))
      | None \<Rightarrow> Inr DefaultClient)"

section \<open>The library calls of Fetch\<close>

text \<open>\<open>os.MkdirTemp\<close>: a directory of mode 0700 (448) under the temporary directory, named
  by the pattern and a random suffix; a name that is taken is tried again with the next
  suffix, until the tries run out.\<close>

fun MkdirTemp :: "filemode \<Rightarrow> path \<Rightarrow> string \<Rightarrow> string list \<Rightarrow> filesys \<Rightarrow> (err + path) \<times> filesys" where
  "MkdirTemp um d pat [] fs = (Inl (EEXIST (d @ [pat])), fs)"
| "MkdirTemp um d pat (r # rs) fs =
     (case Mkdir um (d @ [pat @ r]) 448 fs of
        (None, fs1) \<Rightarrow> (Inr (d @ [pat @ r]), fs1)
      | (Some (EEXIST q), fs1) \<Rightarrow> MkdirTemp um d pat rs fs
      | (Some e, fs1) \<Rightarrow> (Inl e, fs))"

text \<open>What a library call writes: entries below a base directory, laid over the file
  system.\<close>

definition put_entries :: "path \<Rightarrow> (path \<times> node) list \<Rightarrow> filesys \<Rightarrow> filesys" where
  "put_entries base es fs = map (\<lambda>(q, n). (base @ q, n)) (filter (\<lambda>(q, n). q \<noteq> []) es) @ fs"

text \<open>\<open>gogit.PlainInit\<close>: a repository without remotes; one that is not bare keeps its
  data in the directory \<open>.git\<close> of the working tree.\<close>

definition PlainInit :: "env \<Rightarrow> path \<Rightarrow> bool \<Rightarrow> filesys \<Rightarrow> (err + Repository) \<times> filesys" where
  "PlainInit E p isBare fs =
     (case PlainInit_err E of
        Some e \<Rightarrow> (Inl e, fs)
      | None \<Rightarrow>
          (Inr \<lparr> repo_path = p, repo_remotes = [] \<rparr>,
           if isBare then fs
           else put_entries p [([''.git''], Dir 493), ([''.git'', ''HEAD''], File 420 ''ref: refs/heads/master'')] fs))"

definition CreateRemote :: "env \<Rightarrow> Repository \<Rightarrow> RemoteConfig \<Rightarrow> err + (RemoteConfig \<times> Repository)" where
  "CreateRemote E r c =
     (case CreateRemote_err E of
        Some e \<Rightarrow> Inl e
      | None \<Rightarrow> Inr (c, r\<lparr>repo_remotes := repo_remotes r @ [c]\<rparr>))"

definition InstallProtocol :: "string \<Rightarrow> transport \<Rightarrow> world \<Rightarrow> world" where
  "InstallProtocol scheme t w = w\<lparr>protocols := (scheme, t) # protocols w\<rparr>"

text \<open>\<open>remote.Fetch\<close>: the call goes to the network and is recorded with the repository it is made on; what it fetches is
  written into the repository's \<open>.git\<close> directory.\<close>

definition remote_Fetch :: "env \<Rightarrow> Repository \<Rightarrow> RemoteConfig \<Rightarrow> FetchOptions \<Rightarrow> world \<Rightarrow> err option \<times> world" where
  "remote_Fetch E r remote opts w =
     (let w1 = w\<lparr>fetch_calls := fetch_calls w @ [(r, remote, opts)]\<rparr> in
      case remote_Fetch_result E remote opts (protocols w) of
        Inl e \<Rightarrow> (Some e, w1)
      | Inr objs \<Rightarrow> (None, w1\<lparr>files := put_entries (repo_path r @ [''.git'']) objs (files w1)\<rparr>))"

definition Checkout :: "env \<Rightarrow> Repository \<Rightarrow> hash \<Rightarrow> filesys \<Rightarrow> err option \<times> filesys" where
  "Checkout E r h fs =
     (case Checkout_result E h of
        Inl e \<Rightarrow> (Some e, fs)
      | Inr tree \<Rightarrow> (None, put_entries (repo_path r) tree fs))"

text \<open>\<open>hash.String()\<close>: two lower-case hexadecimal digits for each byte.\<close>

definition hex_digit :: "nat \<Rightarrow> char" where
  "hex_digit n = ''0123456789abcdef'' ! (n mod 16)"

definition hash_String :: "hash \<Rightarrow> string" where
  "hash_String h = concat (map (\<lambda>b. [hex_digit (unat b div 16), hex_digit (unat b mod 16)]) h)"

section \<open>Fetch\<close>

text \<open>
  \<open>Fetcher.Fetch\<close>, stage by stage as the source has it; every \<open>return err\<close> is a branch
  that gives the error and the state reached. The first argument bounds the depth of the
  calls of \<open>copyDir\<close>; the result is \<open>None\<close> only when that bound is reached.
\<close>

definition Fetch :: "nat \<Rightarrow> env \<Rightarrow> path \<Rightarrow> string \<Rightarrow> string \<Rightarrow> path \<Rightarrow> world \<Rightarrow> (err option \<times> world) option" where
  "Fetch fuel E dir gitURL gitRevision metadataDir w0 =
    (let w = w0\<lparr>logs := logs w0 @ [LogCloning gitURL gitRevision]\<rparr> in
     case Keychain_Resolve E gitURL of
       Inl e \<Rightarrow> Some (Some e, w)
     | Inr auth \<Rightarrow>
     (case MkdirTemp (umask w) (TempDir E) ''git-clone-'' (temp_names E) (files w) of
       (Inl e, fs1) \<Rightarrow> Some (Some e, w\<lparr>files := fs1\<rparr>)
     | (Inr tmpDir, fs1) \<Rightarrow>
     (case PlainInit E tmpDir False fs1 of
       (Inl e, fs2) \<Rightarrow> Some (Some (Wrap e (Ctx ''initializing repo'')), w\<lparr>files := fs2\<rparr>)
     | (Inr repository0, fs2) \<Rightarrow>
     (case CreateRemote E repository0 \<lparr> rc_Name = ''origin'', rc_URLs = [gitURL] \<rparr> of
       Inl e \<Rightarrow> Some (Some (Wrap e (Ctx ''creating remote'')), w\<lparr>files := fs2\<rparr>)
     | Inr (remote, repository) \<Rightarrow>
     (case getHttpsTransport E of
       Inl e \<Rightarrow> Some (Some e, w\<lparr>files := fs2\<rparr>)
     | Inr httpsTransport \<Rightarrow>
     (let w3 = InstallProtocol ''https'' httpsTransport (w\<lparr>files := fs2\<rparr>) in
      case remote_Fetch E repository remote \<lparr> RefSpecs = [''refs/*:refs/*''], Auth = auth \<rparr> w3 of
       (Some e, w4) \<Rightarrow>
         (if e \<noteq> ErrAuthenticationRequired
          then Some (Some (Wrap e (Ctx ''unable to fetch references for repository'')), w4)
          else Some (Some (Wrap e (Ctx ''invalid credentials for repository'')), w4))
     | (None, w4) \<Rightarrow>
     (case Worktree_err E of
       Some e \<Rightarrow> Some (Some (Wrap e (Ctx ''getting worktree for repository'')), w4)
     | None \<Rightarrow>
     (case ResolveRevision_result E gitRevision of
       Inl e \<Rightarrow> Some (Some (Wrap e (Ctx ''resolving revision'')), w4)
     | Inr hash \<Rightarrow>
     (case Checkout E repository hash (files w4) of
       (Some e, fs5) \<Rightarrow> Some (Some (Wrap e (Ctx ''checking out revision'')), w4\<lparr>files := fs5\<rparr>)
     | (None, fs5) \<Rightarrow>
     (case RemoveAll_err E dir of
       Some e \<Rightarrow> Some (Some (Wrap e (Ctx ''removing directory'')), w4\<lparr>files := fs5\<rparr>)
     | None \<Rightarrow>
     (case copyDir fuel (umask w) dir tmpDir (RemoveAll dir fs5) of
       None \<Rightarrow> None
     | Some (Some e, fs7) \<Rightarrow> Some (Some (Wrap e (Ctx ''copying directory'')), w4\<lparr>files := fs7\<rparr>)
     | Some (None, fs7) \<Rightarrow>
     (case Create (umask w) (metadataDir @ [''project-metadata.toml'']) fs7 of
       (Some e, fs8) \<Rightarrow>
         Some (Some (Wrap e (CtxInvalidMetadataDestination metadataDir gitURL)), w4\<lparr>files := fs8\<rparr>)
     | (None, fs8) \<Rightarrow>
     (let projectMd =
        \<lparr> Source = \<lparr> Type = ''git'',
                     Metadata = \<lparr> Repository = gitURL, Revision = gitRevision \<rparr>,
                     Version = \<lparr> Commit = hash_String hash \<rparr> \<rparr> \<rparr> in
      case toml_Encode E projectMd of
       Inl e \<Rightarrow>
         Some (Some (Wrap e (CtxInvalidMetadataDestination metadataDir gitRevision)), w4\<lparr>files := fs8\<rparr>)
     | Inr text \<Rightarrow>
         Some (None, w4\<lparr>files := write_file (metadataDir @ [''project-metadata.toml'']) text fs8,
                        logs := logs w4 @ [LogSuccess gitURL gitRevision dir]\<rparr>))))))))))))))"

section \<open>A concrete run\<close>

text \<open>
  A small file system with a destination \<open>/workspace\<close> that holds an old file, a metadata
  directory \<open>/platform\<close> and a temporary directory \<open>/tmp\<close>; a remote whose revision
  \<open>main\<close> resolves to a commit with a file and a subdirectory.
\<close>

definition fs0 :: filesys where
  "fs0 = [([], Dir 493), ([''tmp''], Dir 511), ([''workspace''], Dir 493),
          ([''workspace'', ''old.txt''], File 420 ''old''), ([''platform''], Dir 493)]"

definition world0 :: world where
  "world0 = \<lparr> files = fs0, umask = 18, protocols = [], fetch_calls = [], logs = [] \<rparr>"

definition render :: "project \<Rightarrow> string" where
  "render p = Type (Source p) @ '' '' @ Repository (Metadata (Source p)) @ '' ''
              @ Revision (Metadata (Source p)) @ '' '' @ Commit (Version (Source p))"

definition env0 :: env where
  "env0 = \<lparr> Keychain_Resolve = (\<lambda>u. Inr NoAuth),
            TempDir = [''tmp''],
            temp_names = [''001''],
            HTTPS_PROXY = None,
            url_Parse = (\<lambda>s. Inr (URL s)),
            PlainInit_err = None,
            CreateRemote_err = None,
            remote_Fetch_result = (\<lambda>c opts ps. Inr [([''objects''], Dir 493)]),
            Worktree_err = None,
            ResolveRevision_result = (\<lambda>r. if r = ''main'' then Inr [171, 205] else Inl (ErrLibrary ''reference not found'')),
            Checkout_result = (\<lambda>h. Inr [([''README''], File 420 ''hello''), ([''src''], Dir 493),
                                       ([''src'', ''main.go''], File 493 ''package main'')]),
            RemoveAll_err = (\<lambda>p. None),
            toml_Encode = (\<lambda>p. Inr (render p)) \<rparr>"

definition env_proxy :: env where
  "env_proxy = env0\<lparr>HTTPS_PROXY := Some ''http://proxy.local:3128''\<rparr>"

definition env_bad_proxy :: env where
  "env_bad_proxy = env0\<lparr>HTTPS_PROXY := Some ''://proxy'', url_Parse := url_Parse_std (\<lambda>a. None)\<rparr>"

definition env_not_a_url :: env where
  "env_not_a_url = env0\<lparr>HTTPS_PROXY := Some ''not a url'', url_Parse := url_Parse_std (\<lambda>a. None)\<rparr>"

definition env_auth_required :: env where
  "env_auth_required = env0\<lparr>remote_Fetch_result := (\<lambda>c opts ps. Inl ErrAuthenticationRequired)\<rparr>"

definition env_unreachable :: env where
  "env_unreachable = env0\<lparr>remote_Fetch_result := (\<lambda>c opts ps. Inl (ErrLibrary ''connection refused''))\<rparr>"

section \<open>Auxiliary notions\<close>

text \<open>
  What a copy into \<open>dst\<close> may change outside \<open>dst\<close>: nothing, except that directories
  above \<open>dst\<close> that were missing may have been made.
\<close>

definition frame :: "path \<Rightarrow> filesys \<Rightarrow> filesys \<Rightarrow> bool" where
  "frame dst fs fs' = (\<forall>q. \<not> prefix dst q \<longrightarrow>
      lookup fs' q = lookup fs q \<or> (lookup fs q = None \<and> prefix q dst))"

text \<open>
  What a copy makes of a node: a file keeps its mode and content (\<open>copyFile\<close> ends with
  \<open>os.Chmod\<close>), a directory gets the mode of the source less the umask (\<open>os.MkdirAll\<close>).
\<close>

fun copied :: "filemode \<Rightarrow> node \<Rightarrow> node" where
  "copied um (File m c) = File m c"
| "copied um (Dir m) = Dir (m AND NOT um)"

text \<open>
  A directory \<open>src\<close> of the file system is a tree when every entry below it lies in a
  directory: the association list has no entry whose parent is missing or is a file.
\<close>

definition is_tree :: "filesys \<Rightarrow> path \<Rightarrow> bool" where
  "is_tree fs src =
     list_all (\<lambda>(p, n). \<not> (prefix src p \<and> p \<noteq> src) \<or>
                 (case lookup fs (butlast p) of Some (Dir m) \<Rightarrow> True | _ \<Rightarrow> False)) fs"

text \<open>The same, read through \<open>lookup\<close>: below \<open>src\<close>, whatever exists has a directory as parent.\<close>

definition closed_below :: "filesys \<Rightarrow> path \<Rightarrow> bool" where
  "closed_below fs src =
     (\<forall>q n. lookup fs (src @ q @ [n]) \<noteq> None \<longrightarrow> (\<exists>m. lookup fs (src @ q) = Some (Dir m)))"

text \<open>
  The stages of \<open>Fetch\<close> that come before the destination is replaced (lines 30 to 82 of
  the source): credential resolution, the temporary directory, the repository, the
  remote, the transport, the fetch, the working tree, the revision and the checkout.
  \<open>clone_succeeds\<close> says that none of them fails.
\<close>

definition clone_succeeds :: "env \<Rightarrow> string \<Rightarrow> string \<Rightarrow> world \<Rightarrow> bool" where
  "clone_succeeds E gitURL gitRevision w0 =
     (case Keychain_Resolve E gitURL of
        Inl e \<Rightarrow> False
      | Inr auth \<Rightarrow>
     (case MkdirTemp (umask w0) (TempDir E) ''git-clone-'' (temp_names E) (files w0) of
        (Inl e, fs1) \<Rightarrow> False
      | (Inr tmpDir, fs1) \<Rightarrow>
          PlainInit_err E = None \<and> CreateRemote_err E = None \<and>
     (case getHttpsTransport E of
        Inl e \<Rightarrow> False
      | Inr t \<Rightarrow>
     (case remote_Fetch_result E \<lparr> rc_Name = ''origin'', rc_URLs = [gitURL] \<rparr>
              \<lparr> RefSpecs = [''refs/*:refs/*''], Auth = auth \<rparr> ((''https'', t) # protocols w0) of
        Inl e \<Rightarrow> False
      | Inr objs \<Rightarrow>
          Worktree_err E = None \<and>
     (case ResolveRevision_result E gitRevision of
        Inl e \<Rightarrow> False
      | Inr h \<Rightarrow>
     (case Checkout_result E h of
        Inl e \<Rightarrow> False
      | Inr tree \<Rightarrow> True))))))"

text \<open>
  The same stages as a function of their own, for the proofs: it gives the error and the
  state when a stage fails, and otherwise the scratch directory, the commit and the state
  after the checkout. \<open>Fetch_phases\<close> below shows that \<open>Fetch\<close> is these stages followed
  by lines 84 to 120.
\<close>

definition Fetch_clone :: "env \<Rightarrow> string \<Rightarrow> string \<Rightarrow> world \<Rightarrow> (err \<times> world) + (path \<times> hash \<times> world)" where
  "Fetch_clone E gitURL gitRevision w0 =
    (let w = w0\<lparr>logs := logs w0 @ [LogCloning gitURL gitRevision]\<rparr> in
     case Keychain_Resolve E gitURL of
       Inl e \<Rightarrow> Inl (e, w)
     | Inr auth \<Rightarrow>
     (case MkdirTemp (umask w) (TempDir E) ''git-clone-'' (temp_names E) (files w) of
       (Inl e, fs1) \<Rightarrow> Inl (e, w\<lparr>files := fs1\<rparr>)
     | (Inr tmpDir, fs1) \<Rightarrow>
     (case PlainInit E tmpDir False fs1 of
       (Inl e, fs2) \<Rightarrow> Inl (Wrap e (Ctx ''initializing repo''), w\<lparr>files := fs2\<rparr>)
     | (Inr repository0, fs2) \<Rightarrow>
     (case CreateRemote E repository0 \<lparr> rc_Name = ''origin'', rc_URLs = [gitURL] \<rparr> of
       Inl e \<Rightarrow> Inl (Wrap e (Ctx ''creating remote''), w\<lparr>files := fs2\<rparr>)
     | Inr (remote, repository) \<Rightarrow>
     (case getHttpsTransport E of
       Inl e \<Rightarrow> Inl (e, w\<lparr>files := fs2\<rparr>)
     | Inr httpsTransport \<Rightarrow>
     (let w3 = InstallProtocol ''https'' httpsTransport (w\<lparr>files := fs2\<rparr>) in
      case remote_Fetch E repository remote \<lparr> RefSpecs = [''refs/*:refs/*''], Auth = auth \<rparr> w3 of
       (Some e, w4) \<Rightarrow>
         (if e \<noteq> ErrAuthenticationRequired
          then Inl (Wrap e (Ctx ''unable to fetch references for repository''), w4)
          else Inl (Wrap e (Ctx ''invalid credentials for repository''), w4))
     | (None, w4) \<Rightarrow>
     (case Worktree_err E of
       Some e \<Rightarrow> Inl (Wrap e (Ctx ''getting worktree for repository''), w4)
     | None \<Rightarrow>
     (case ResolveRevision_result E gitRevision of
       Inl e \<Rightarrow> Inl (Wrap e (Ctx ''resolving revision''), w4)
     | Inr hash \<Rightarrow>
     (case Checkout E repository hash (files w4) of
       (Some e, fs5) \<Rightarrow> Inl (Wrap e (Ctx ''checking out revision''), w4\<lparr>files := fs5\<rparr>)
     | (None, fs5) \<Rightarrow> Inr (tmpDir, hash, w4\<lparr>files := fs5\<rparr>))))))))))"

text \<open>What a run of \<open>Fetch\<close> returned and what it left at one path.\<close>

definition outcome_at :: "path \<Rightarrow> (err option \<times> world) option \<Rightarrow> (err option \<times> node option) option" where
  "outcome_at p res = map_option (\<lambda>(r, w). (r, lookup (files w) p)) res"

text \<open>The example after an earlier run: the metadata file is there, with a mode of its own.\<close>

definition world_rerun :: world where
  "world_rerun = world0\<lparr>files := ([''platform'', ''project-metadata.toml''], File 384 ''stale'') # fs0\<rparr>"

text \<open>Whether a transport was built, and how many fetches a run of \<open>Fetch\<close> has sent.\<close>

fun built_proxy_client :: "err + transport \<Rightarrow> bool" where
  "built_proxy_client (Inr (NewClient c)) = True"
| "built_proxy_client (Inr DefaultClient) = False"
| "built_proxy_client (Inl e) = False"

definition fetches_made :: "(err option \<times> world) option \<Rightarrow> nat option" where
  "fetches_made res = map_option (\<lambda>(r, w). length (fetch_calls w)) res"

text \<open>What a run of \<open>Fetch\<close> returned and the file system it left.\<close>

definition outcome_files :: "(err option \<times> world) option \<Rightarrow> (err option \<times> filesys) option" where
  "outcome_files res = map_option (\<lambda>(r, w). (r, files w)) res"

text \<open>The file system after the run of the example, and after the run of the example with
  a metadata directory that does not exist.\<close>

definition files_after :: filesys where
  "files_after =
      [([''platform'', ''project-metadata.toml''], File 420 ''git https://x/r.git main abcd''),
       ([''platform'', ''project-metadata.toml''], File 420 []),
       ([''workspace'', ''.git'', ''HEAD''], File 420 ''ref: refs/heads/master''),
       ([''workspace'', ''.git'', ''HEAD''], File 420 ''ref: refs/heads/master''),
       ([''workspace'', ''.git'', ''HEAD''], File 420 []),
       ([''workspace'', ''.git'', ''objects''], Dir 493),
       ([''workspace'', ''.git''], Dir 493),
       ([''workspace'', ''src'', ''main.go''], File 493 ''package main''),
       ([''workspace'', ''src'', ''main.go''], File 420 ''package main''),
       ([''workspace'', ''src'', ''main.go''], File 420 []),
       ([''workspace'', ''src''], Dir 493),
       ([''workspace'', ''README''], File 420 ''hello''),
       ([''workspace'', ''README''], File 420 ''hello''),
       ([''workspace'', ''README''], File 420 []),
       ([''workspace''], Dir 448),
       ([''tmp'', ''git-clone-001'', ''README''], File 420 ''hello''),
       ([''tmp'', ''git-clone-001'', ''src''], Dir 493),
       ([''tmp'', ''git-clone-001'', ''src'', ''main.go''], File 493 ''package main''),
       ([''tmp'', ''git-clone-001'', ''.git'', ''objects''], Dir 493),
       ([''tmp'', ''git-clone-001'', ''.git''], Dir 493),
       ([''tmp'', ''git-clone-001'', ''.git'', ''HEAD''], File 420 ''ref: refs/heads/master''),
       ([''tmp'', ''git-clone-001''], Dir 448),
       ([], Dir 493), ([''tmp''], Dir 511), ([''platform''], Dir 493)]"

definition files_after_failure :: filesys where
  "files_after_failure = drop 2 files_after"

section \<open>Facts about the transport and the fetch step\<close>

lemma MkdirTemp_world0:
  "MkdirTemp (umask world0) [''tmp''] ''git-clone-'' [''001''] (files world0) =
     (Inr [''tmp'', ''git-clone-001''], ([''tmp'', ''git-clone-001''], Dir 448) # fs0)"
  by (simp add: world0_def fs0_def Mkdir_def lookup_def)

text \<open>
  C4. When the fetch step of \<open>Fetch\<close> fails, \<open>Fetch\<close> returns that error wrapped: with the
  context "invalid credentials for repository" when the error is the transport's
  authentication-required error, and with the different context "unable to fetch
  references for repository" for every other error.
\<close>

theorem Fetch_classifies_fetch_error:
  assumes "Keychain_Resolve E gitURL = Inr auth"
    and "MkdirTemp (umask w0) (TempDir E) ''git-clone-'' (temp_names E) (files w0) = (Inr tmpDir, fs1)"
    and "PlainInit_err E = None"
    and "CreateRemote_err E = None"
    and "getHttpsTransport E = Inr t"
    and "remote_Fetch_result E \<lparr> rc_Name = ''origin'', rc_URLs = [gitURL] \<rparr>
           \<lparr> RefSpecs = [''refs/*:refs/*''], Auth = auth \<rparr> ((''https'', t) # protocols w0) = Inl e"
  shows "(\<exists>w'. Fetch fuel E dir gitURL gitRevision metadataDir w0 =
      Some (Some (Wrap e (Ctx (if e = ErrAuthenticationRequired
                               then ''invalid credentials for repository''
                               else ''unable to fetch references for repository''))), w'))
    \<and> Ctx ''invalid credentials for repository'' \<noteq> Ctx ''unable to fetch references for repository''"
  using assms
  by (simp add: Fetch_def Let_def PlainInit_def CreateRemote_def InstallProtocol_def remote_Fetch_def)

theorem Fetch_classifies_fetch_error_witness:
  "(\<exists>w'. Fetch 5 env_auth_required [''workspace''] ''https://x/r.git'' ''main'' [''platform''] world0 =
      Some (Some (Wrap ErrAuthenticationRequired (Ctx ''invalid credentials for repository'')), w'))
   \<and> (\<exists>w'. Fetch 5 env_unreachable [''workspace''] ''https://x/r.git'' ''main'' [''platform''] world0 =
      Some (Some (Wrap (ErrLibrary ''connection refused'')
                   (Ctx ''unable to fetch references for repository'')), w'))"
proof -
  have p: "protocols world0 = []" by (simp add: world0_def)
  have a: "\<exists>w'. Fetch 5 env_auth_required [''workspace''] ''https://x/r.git'' ''main'' [''platform''] world0 =
      Some (Some (Wrap ErrAuthenticationRequired (Ctx ''invalid credentials for repository'')), w')"
    using Fetch_classifies_fetch_error [of env_auth_required "''https://x/r.git''" NoAuth world0
        "[''tmp'', ''git-clone-001'']" "([''tmp'', ''git-clone-001''], Dir 448) # fs0" DefaultClient
        ErrAuthenticationRequired 5 "[''workspace'']" "''main''" "[''platform'']"]
      MkdirTemp_world0 p
    by (simp add: env_auth_required_def env0_def getHttpsTransport_def)
  have b: "\<exists>w'. Fetch 5 env_unreachable [''workspace''] ''https://x/r.git'' ''main'' [''platform''] world0 =
      Some (Some (Wrap (ErrLibrary ''connection refused'')
                   (Ctx ''unable to fetch references for repository'')), w')"
    using Fetch_classifies_fetch_error [of env_unreachable "''https://x/r.git''" NoAuth world0
        "[''tmp'', ''git-clone-001'']" "([''tmp'', ''git-clone-001''], Dir 448) # fs0" DefaultClient
        "ErrLibrary ''connection refused''" 5 "[''workspace'']" "''main''" "[''platform'']"]
      MkdirTemp_world0 p
    by (simp add: env_unreachable_def env0_def getHttpsTransport_def)
  from a b show ?thesis by blast
qed

lemma url_Parse_std_not_a_url: "url_Parse_std pa ''not a url'' = Inr (URL ''not a url'')"
  by code_simp

lemma url_Parse_std_no_scheme: "url_Parse_std pa ''://proxy'' = Inl (ErrLibrary ''missing protocol scheme'')"
  by code_simp

text \<open>
  C5 as stated fails on its own example. \<open>url.Parse\<close> reads "not a url" as a relative
  path and returns no error, so with \<open>HTTPS_PROXY\<close> set to it \<open>getHttpsTransport\<close> builds
  the proxy client, and the run of the example goes on and sends its fetch.
\<close>

theorem not_a_url_is_accepted_and_fetched:
  "url_Parse env_not_a_url ''not a url'' = Inr (URL ''not a url'')
   \<and> built_proxy_client (getHttpsTransport env_not_a_url)
   \<and> fetches_made (Fetch 5 env_not_a_url [''workspace''] ''https://x/r.git'' ''main'' [''platform''] world0) = Some 1"
  by code_simp

text \<open>
  C5, as the code has it. What counts as malformed is what \<open>url.Parse\<close> rejects. When
  \<open>HTTPS_PROXY\<close> is set to an address that \<open>url.Parse\<close> rejects, \<open>getHttpsTransport\<close>
  returns the parse error (wrapped) and no transport, and \<open>Fetch\<close> returns an error
  without having made any fetch: no call has gone to the network. When it is set to an
  address that \<open>url.Parse\<close> accepts, the proxy client is built.
\<close>

theorem rejected_proxy_fails_before_fetch:
  "(HTTPS_PROXY E = Some a \<and> url_Parse E a = Inl e \<longrightarrow>
      getHttpsTransport E = Inl (Wrap e (Ctx ''parsing HTTPS_PROXY url''))
      \<and> (\<exists>r w'. Fetch fuel E dir gitURL gitRevision metadataDir w0 = Some (Some r, w')
            \<and> fetch_calls w' = fetch_calls w0))
   \<and> (HTTPS_PROXY E = Some a \<and> url_Parse E a = Inr u \<longrightarrow> built_proxy_client (getHttpsTransport E))"
proof (intro conjI impI)
  assume h: "HTTPS_PROXY E = Some a \<and> url_Parse E a = Inl e"
  then show g: "getHttpsTransport E = Inl (Wrap e (Ctx ''parsing HTTPS_PROXY url''))"
    by (simp add: getHttpsTransport_def)
  show "\<exists>r w'. Fetch fuel E dir gitURL gitRevision metadataDir w0 = Some (Some r, w')
            \<and> fetch_calls w' = fetch_calls w0"
    using g by (simp add: Fetch_def Let_def split: sum.splits prod.splits option.splits)
next
  assume "HTTPS_PROXY E = Some a \<and> url_Parse E a = Inr u"
  then show "built_proxy_client (getHttpsTransport E)"
    by (simp add: getHttpsTransport_def)
qed

theorem rejected_proxy_fails_before_fetch_witness:
  "url_Parse env_bad_proxy ''://proxy'' = Inl (ErrLibrary ''missing protocol scheme'')
   \<and> getHttpsTransport env_bad_proxy =
      Inl (Wrap (ErrLibrary ''missing protocol scheme'') (Ctx ''parsing HTTPS_PROXY url''))
   \<and> (\<exists>r w'. Fetch 5 env_bad_proxy [''workspace''] ''https://x/r.git'' ''main'' [''platform''] world0 =
          Some (Some r, w') \<and> fetch_calls w' = fetch_calls world0)
   \<and> url_Parse env_not_a_url ''not a url'' = Inr (URL ''not a url'')
   \<and> built_proxy_client (getHttpsTransport env_not_a_url)"
proof -
  have b: "HTTPS_PROXY env_bad_proxy = Some ''://proxy''
      \<and> url_Parse env_bad_proxy ''://proxy'' = Inl (ErrLibrary ''missing protocol scheme'')"
    by (simp add: env_bad_proxy_def url_Parse_std_no_scheme)
  have n: "HTTPS_PROXY env_not_a_url = Some ''not a url''
      \<and> url_Parse env_not_a_url ''not a url'' = Inr (URL ''not a url'')"
    by (simp add: env_not_a_url_def url_Parse_std_not_a_url)
  from b rejected_proxy_fails_before_fetch [of env_bad_proxy "''://proxy''" "ErrLibrary ''missing protocol scheme''"
      5 "[''workspace'']" "''https://x/r.git''" "''main''" "[''platform'']" world0]
  have 1: "getHttpsTransport env_bad_proxy =
      Inl (Wrap (ErrLibrary ''missing protocol scheme'') (Ctx ''parsing HTTPS_PROXY url''))
   \<and> (\<exists>r w'. Fetch 5 env_bad_proxy [''workspace''] ''https://x/r.git'' ''main'' [''platform''] world0 =
          Some (Some r, w') \<and> fetch_calls w' = fetch_calls world0)"
    by blast
  from n rejected_proxy_fails_before_fetch [of env_not_a_url "''not a url''" _ _ _ _ _ _ _ "URL ''not a url''"]
  have 2: "built_proxy_client (getHttpsTransport env_not_a_url)"
    by blast
  from b n 1 2 show ?thesis by blast
qed

text \<open>
  C6. When \<open>HTTPS_PROXY\<close> is set to an address that parses, the transport is built on an
  HTTP client whose proxy function gives that address for every request, whose timeout
  is 15 seconds and whose redirect check always answers with the use-last-response
  error; when \<open>HTTPS_PROXY\<close> is not set, the library's default client is returned.
\<close>

theorem getHttpsTransport_client:
  "(HTTPS_PROXY E = Some a \<and> url_Parse E a = Inr u \<longrightarrow>
     (\<exists>c. getHttpsTransport E = Inr (NewClient c)
        \<and> (\<forall>req. Proxy (Transport c) req = Inr (Some u))
        \<and> Timeout c = 15 * Second \<and> sint (Timeout c) = 15000000000
        \<and> (\<forall>req via. CheckRedirect c req via = Some ErrUseLastResponse)))
   \<and> (HTTPS_PROXY E = None \<longrightarrow> getHttpsTransport E = Inr DefaultClient)"
  by (simp add: getHttpsTransport_def ProxyURL_def Second_def)

theorem getHttpsTransport_client_witness:
  "(\<exists>c. getHttpsTransport env_proxy = Inr (NewClient c)
        \<and> (\<forall>req. Proxy (Transport c) req = Inr (Some (URL ''http://proxy.local:3128'')))
        \<and> sint (Timeout c) = 15000000000
        \<and> (\<forall>req via. CheckRedirect c req via = Some ErrUseLastResponse))
   \<and> getHttpsTransport env0 = Inr DefaultClient"
proof -
  have h1: "HTTPS_PROXY env_proxy = Some ''http://proxy.local:3128''
      \<and> url_Parse env_proxy ''http://proxy.local:3128'' = Inr (URL ''http://proxy.local:3128'')"
    by (simp add: env_proxy_def env0_def)
  have h2: "HTTPS_PROXY env0 = None"
    by (simp add: env0_def)
  from h1 getHttpsTransport_client [of env_proxy "''http://proxy.local:3128''" "URL ''http://proxy.local:3128''"]
  have a: "\<exists>c. getHttpsTransport env_proxy = Inr (NewClient c)
        \<and> (\<forall>req. Proxy (Transport c) req = Inr (Some (URL ''http://proxy.local:3128'')))
        \<and> sint (Timeout c) = 15000000000
        \<and> (\<forall>req via. CheckRedirect c req via = Some ErrUseLastResponse)"
    by blast
  from h2 getHttpsTransport_client [of env0 "[]" "URL []"]
  have b: "getHttpsTransport env0 = Inr DefaultClient"
    by blast
  from a b show ?thesis by blast
qed

text \<open>
  C7. When the stages before the fetch succeed (the credential, the temporary directory,
  the repository, the remote, the transport) and \<open>Fetch\<close> returns, it has made exactly one
  fetch: on the repository initialised in the fresh scratch directory, whose only remote
  is the one named "origin" with the target URL as its only URL, asking for the single
  refspec \<open>refs/*:refs/*\<close> with the credential the keychain gave, after installing the
  transport for "https".
\<close>

theorem Fetch_fetches_all_refs_from_origin:
  assumes "Fetch fuel E dir gitURL gitRevision metadataDir w0 = Some (r, w')"
    and "Keychain_Resolve E gitURL = Inr auth"
    and "MkdirTemp (umask w0) (TempDir E) ''git-clone-'' (temp_names E) (files w0) = (Inr tmpDir, fs1)"
    and "PlainInit_err E = None"
    and "CreateRemote_err E = None"
    and "getHttpsTransport E = Inr t"
  shows "fetch_calls w' = fetch_calls w0 @
          [(\<lparr> repo_path = tmpDir, repo_remotes = [\<lparr> rc_Name = ''origin'', rc_URLs = [gitURL] \<rparr>] \<rparr>,
            \<lparr> rc_Name = ''origin'', rc_URLs = [gitURL] \<rparr>,
            \<lparr> RefSpecs = [''refs/*:refs/*''], Auth = auth \<rparr>)]
     \<and> protocols w' = (''https'', t) # protocols w0"
  using assms
  by (auto simp add: Fetch_def Let_def PlainInit_def CreateRemote_def InstallProtocol_def remote_Fetch_def
       split: sum.splits prod.splits option.splits if_splits)

section \<open>The file system operations, path by path\<close>

lemma lookup_Cons: "lookup ((p, n) # fs) q = (if q = p then Some n else lookup fs q)"
  by (simp add: lookup_def)

lemma lookup_RemoveAll: "lookup (RemoveAll p fs) q = (if prefix p q then None else lookup fs q)"
  by (induction fs) (auto simp: RemoveAll_def lookup_def)

lemma lookup_put_entries: "\<not> prefix base q \<Longrightarrow> lookup (put_entries base es fs) q = lookup fs q"
  by (induction es) (auto simp: put_entries_def lookup_def)

lemma lookup_put_entries_base: "lookup (put_entries base es fs) base = lookup fs base"
  by (induction es) (auto simp: put_entries_def lookup_def)

lemma Mkdir_lookup:
  "Mkdir um p perm fs = (r, fs') \<Longrightarrow>
     lookup fs' q = (if r = None \<and> q = p then Some (Dir (perm AND NOT um)) else lookup fs q)"
  by (auto simp: Mkdir_def lookup_Cons split: if_splits option.splits node.splits)

lemma MkdirTemp_ok:
  "MkdirTemp um d pat rs fs = (Inr t, fs') \<Longrightarrow>
     lookup fs t = None \<and> fs' = (t, Dir (448 AND NOT um)) # fs"
proof (induction rs)
  case Nil then show ?case by simp
next
  case (Cons r rs)
  then show ?case
    by (auto simp: Mkdir_def split: if_splits option.splits node.splits prod.splits err.splits)
qed

lemma MkdirTemp_err: "MkdirTemp um d pat rs fs = (Inl e, fs') \<Longrightarrow> fs' = fs"
  by (induction rs) (auto split: if_splits option.splits node.splits prod.splits err.splits)

lemma frame_refl: "frame dst fs fs" by (simp add: frame_def)

lemma frame_trans: "frame dst fs fs1 \<Longrightarrow> frame dst fs1 fs2 \<Longrightarrow> frame dst fs fs2"
  unfolding frame_def by metis

lemma frame_child: "frame (dst @ [n]) fs fs' \<Longrightarrow> frame dst fs fs'"
  unfolding frame_def
  by (metis prefix_append prefix_order.dual_order.trans prefix_snoc  prefixI)

lemma MkdirAll_rev_frame:
  "MkdirAll_rev um rp perm fs = (r, fs') \<Longrightarrow>
     lookup fs' q = lookup fs q \<or>
     (lookup fs q = None \<and> prefix q (rev rp) \<and> lookup fs' q = Some (Dir (perm AND NOT um)))"
proof (induction rp arbitrary: r fs')
  case Nil
  then show ?case by (auto split: option.splits node.splits)
next
  case (Cons c rp)
  show ?case
  proof (cases "lookup fs (rev (c # rp))")
    case (Some n)
    with Cons.prems show ?thesis by (cases n) auto
  next
    case None
    obtain r1 fs1 where m: "MkdirAll_rev um rp perm fs = (r1, fs1)" by (cases "MkdirAll_rev um rp perm fs")
    note ih = Cons.IH [OF m]
    show ?thesis
    proof (cases r1)
      case (Some e)
      with Cons.prems None m have "fs' = fs1" by simp
      with ih show ?thesis by (auto simp: prefix_def)
    next
      case None': None
      with Cons.prems None m have k: "Mkdir um (rev (c # rp)) perm fs1 = (r, fs')" by simp
      from Mkdir_lookup [OF k, of q] ih None show ?thesis
        by (auto simp: prefix_def split: if_splits)
    qed
  qed
qed

lemma MkdirAll_frame: "MkdirAll um dst perm fs = (r, fs') \<Longrightarrow> frame dst fs fs'"
  unfolding frame_def MkdirAll_def using MkdirAll_rev_frame [of um "rev dst" perm fs r fs']
  by auto

lemma Create_lookup:
  "Create um p fs = (r, fs') \<Longrightarrow> q \<noteq> p \<Longrightarrow> lookup fs' q = lookup fs q"
  by (auto simp: Create_def lookup_Cons split: if_splits option.splits node.splits)

lemma Create_err: "Create um p fs = (Some e, fs') \<Longrightarrow> fs' = fs"
  by (auto simp: Create_def split: if_splits option.splits node.splits)

lemma Create_ok:
  "Create um p fs = (None, fs') \<Longrightarrow>
     (\<exists>m. lookup fs' p = Some (File m []) \<and>
          (lookup fs p = None \<longrightarrow> m = 438 AND NOT um) \<and> (\<forall>m0 c0. lookup fs p = Some (File m0 c0) \<longrightarrow> m = m0))
     \<and> (\<forall>m. lookup fs p \<noteq> Some (Dir m))"
  by (auto simp: Create_def lookup_Cons split: if_splits option.splits node.splits)

lemma write_file_lookup:
  "lookup (write_file p c fs) q =
     (if q = p then (case lookup fs p of Some (File m c0) \<Rightarrow> Some (File m (c0 @ c)) | x \<Rightarrow> x)
      else lookup fs q)"
  by (auto simp: write_file_def lookup_Cons split: option.splits node.splits)

lemma Chmod_lookup:
  "Chmod p m fs = (r, fs') \<Longrightarrow>
     lookup fs' q = (if q = p then (case lookup fs p of Some (File m0 c) \<Rightarrow> Some (File m c)
                                      | Some (Dir m0) \<Rightarrow> Some (Dir m) | None \<Rightarrow> None)
                     else lookup fs q)"
  by (auto simp: Chmod_def lookup_Cons split: option.splits node.splits)

lemma copyFile_other:
  assumes "copyFile um d s fs = (r, fs')" and "q \<noteq> d"
  shows "lookup fs' q = lookup fs q"
  using assms
  by (auto simp: copyFile_def Let_def Stat_def write_file_lookup
       split: option.splits prod.splits node.splits sum.splits
       dest!: Create_lookup [where q = q] Chmod_lookup [where q = q] Create_err)

lemma copyFile_ok:
  assumes "copyFile um d s fs = (None, fs')" and "d \<noteq> s"
  shows "\<exists>m c. lookup fs s = Some (File m c) \<and> lookup fs' d = Some (File m c)"
proof -
  from assms(1) obtain fs1 where c: "Create um d fs = (None, fs1)"
    by (auto simp: copyFile_def split: option.splits prod.splits)
  from Create_ok [OF c] obtain m1 where d1: "lookup fs1 d = Some (File m1 [])" by blast
  from Create_lookup [OF c, of s] assms(2) have s1: "lookup fs1 s = lookup fs s" by simp
  from assms(1) c obtain m cc where sf: "lookup fs1 s = Some (File m cc)"
    by (auto simp: copyFile_def split: option.splits prod.splits node.splits)
  let ?fs2 = "write_file d cc fs1"
  have s2: "lookup ?fs2 s = Some (File m cc)" using sf assms(2) by (simp add: write_file_lookup)
  have d2: "lookup ?fs2 d = Some (File m1 cc)" using d1 by (simp add: write_file_lookup)
  from assms(1) c sf s1 s2 have ch: "Chmod d m ?fs2 = (None, fs')"
    by (auto simp: copyFile_def Let_def Stat_def info_of_def split: option.splits)
  from Chmod_lookup [OF ch, of d] d2 have "lookup fs' d = Some (File m cc)" by simp
  with sf s1 show ?thesis by simp
qed

lemma copyFile_frame:
  assumes "copyFile um (dst @ [n]) s fs = (r, fs')"
  shows "frame dst fs fs'"
  unfolding frame_def
proof (intro allI impI)
  fix q assume "\<not> prefix dst q"
  then have "q \<noteq> dst @ [n]" by auto
  from copyFile_other [OF assms this] show "lookup fs' q = lookup fs q \<or> (lookup fs q = None \<and> prefix q dst)"
    by simp
qed

lemma copyDir_frame_both:
  "(\<forall>r fs'. copyDir k um dst src fs = Some (r, fs') \<longrightarrow> frame dst fs fs')"
  "(\<forall>r fs'. copyEntries k um dst src infos fs = Some (r, fs') \<longrightarrow> frame dst fs fs')"
proof (induction k um dst src fs and k um dst src infos fs rule: copyDir_copyEntries.induct)
  case (1 um dstDir srcDir fs)
  then show ?case by simp
next
  case (2 k um dstDir srcDir fs)
  show ?case
  proof (intro allI impI)
    fix r fs' assume a: "copyDir (Suc k) um dstDir srcDir fs = Some (r, fs')"
    show "frame dstDir fs fs'"
    proof (cases "Stat srcDir fs")
      case (Inl e) with a show ?thesis by (simp add: frame_refl)
    next
      case (Inr srcInfo)
      obtain r1 fs1 where m: "MkdirAll um dstDir (Mode srcInfo) fs = (r1, fs1)"
        by (cases "MkdirAll um dstDir (Mode srcInfo) fs")
      note f1 = MkdirAll_frame [OF m]
      show ?thesis
      proof (cases r1)
        case (Some e) with a Inr m f1 show ?thesis by simp
      next
        case None
        show ?thesis
        proof (cases "ReadDir srcDir fs1")
          case (Inl e) with a Inr m None f1 show ?thesis by simp
        next
          case rd: (Inr entries)
          show ?thesis
          proof (cases "getFileInfos (map (\<lambda>n. srcDir @ [n]) entries) fs1")
            case (Inl e) with a Inr m None rd f1 show ?thesis by simp
          next
            case gi: (Inr fileInfos)
            from a Inr m None rd gi have "copyEntries k um dstDir srcDir fileInfos fs1 = Some (r, fs')" by simp
            with "2.IH" m None Inr rd gi have "frame dstDir fs1 fs'"
              by simp
            with f1 show ?thesis by (rule frame_trans)
          qed
        qed
      qed
    qed
  qed
next
  case (3 k um dstDir srcDir fs)
  then show ?case by (simp add: frame_refl)
next
  case (4 k um dstDir srcDir fileInfo fileInfos fs)
  show ?case
  proof (intro allI impI)
    fix r fs' assume a: "copyEntries k um dstDir srcDir (fileInfo # fileInfos) fs = Some (r, fs')"
    show "frame dstDir fs fs'"
    proof (cases "IsDir fileInfo")
      case True
      from a True obtain r1 fs1 where c: "copyDir k um (dstDir @ [Name fileInfo]) (srcDir @ [Name fileInfo]) fs = Some (r1, fs1)"
        by (auto split: option.splits)
      from "4.IH"(1) [OF True] c have f1: "frame dstDir fs fs1" by (auto intro: frame_child)
      show ?thesis
      proof (cases r1)
        case (Some e) with a True c f1 show ?thesis by simp
      next
        case None
        with a True c have "copyEntries k um dstDir srcDir fileInfos fs1 = Some (r, fs')" by simp
        with "4.IH"(2) [OF True c [unfolded None] refl] None have "frame dstDir fs1 fs'" by simp
        with f1 show ?thesis by (rule frame_trans)
      qed
    next
      case False
      obtain r1 fs1 where c: "copyFile um (dstDir @ [Name fileInfo]) (srcDir @ [Name fileInfo]) fs = (r1, fs1)"
        by (cases "copyFile um (dstDir @ [Name fileInfo]) (srcDir @ [Name fileInfo]) fs")
      note f1 = copyFile_frame [OF c]
      show ?thesis
      proof (cases r1)
        case (Some e) with a False c f1 show ?thesis by simp
      next
        case None
        with a False c have "copyEntries k um dstDir srcDir fileInfos fs1 = Some (r, fs')" by simp
        with "4.IH"(3) [OF False c [unfolded None, symmetric] refl] None have "frame dstDir fs1 fs'" by simp
        with f1 show ?thesis by (rule frame_trans)
      qed
    qed
  qed
qed

section \<open>The phases of Fetch\<close>

lemma Fetch_phases:
  "Fetch fuel E dir gitURL gitRevision metadataDir w0 =
    (case Fetch_clone E gitURL gitRevision w0 of
       Inl (e, w) \<Rightarrow> Some (Some e, w)
     | Inr (tmpDir, hash, w5) \<Rightarrow>
     (case RemoveAll_err E dir of
       Some e \<Rightarrow> Some (Some (Wrap e (Ctx ''removing directory'')), w5)
     | None \<Rightarrow>
     (case copyDir fuel (umask w0) dir tmpDir (RemoveAll dir (files w5)) of
       None \<Rightarrow> None
     | Some (Some e, fs7) \<Rightarrow> Some (Some (Wrap e (Ctx ''copying directory'')), w5\<lparr>files := fs7\<rparr>)
     | Some (None, fs7) \<Rightarrow>
     (case Create (umask w0) (metadataDir @ [''project-metadata.toml'']) fs7 of
       (Some e, fs8) \<Rightarrow>
         Some (Some (Wrap e (CtxInvalidMetadataDestination metadataDir gitURL)), w5\<lparr>files := fs8\<rparr>)
     | (None, fs8) \<Rightarrow>
     (case toml_Encode E \<lparr> Source = \<lparr> Type = ''git'',
                     Metadata = \<lparr> Repository = gitURL, Revision = gitRevision \<rparr>,
                     Version = \<lparr> Commit = hash_String hash \<rparr> \<rparr> \<rparr> of
       Inl e \<Rightarrow>
         Some (Some (Wrap e (CtxInvalidMetadataDestination metadataDir gitRevision)), w5\<lparr>files := fs8\<rparr>)
     | Inr text \<Rightarrow>
         Some (None, w5\<lparr>files := write_file (metadataDir @ [''project-metadata.toml'']) text fs8,
                        logs := logs w5 @ [LogSuccess gitURL gitRevision dir]\<rparr>))))))"
  by (simp add: Fetch_def Fetch_clone_def Let_def split: sum.splits prod.splits option.splits)

lemma lookup_put_entries_some: "lookup fs p \<noteq> None \<Longrightarrow> lookup (put_entries b es fs) p \<noteq> None"
  by (induction es) (auto simp: put_entries_def lookup_def)

lemma lookup_init_git:
  "lookup (put_entries t (([''.git''], n) # es) fs) (t @ [''.git'']) = Some n"
  by (simp add: put_entries_def lookup_def)

lemma Fetch_clone_Inr:
  assumes "Fetch_clone E gitURL gitRevision w0 = Inr (tmpDir, h, w5)"
  shows "(\<exists>fs1. MkdirTemp (umask w0) (TempDir E) ''git-clone-'' (temp_names E) (files w0) = (Inr tmpDir, fs1))
    \<and> lookup (files w0) tmpDir = None
    \<and> umask w5 = umask w0
    \<and> lookup (files w5) tmpDir = Some (Dir (448 AND NOT (umask w0)))
    \<and> lookup (files w5) (tmpDir @ [''.git'']) \<noteq> None
    \<and> ResolveRevision_result E gitRevision = Inr h
    \<and> (\<exists>tree. Checkout_result E h = Inr tree)
    \<and> (\<forall>p. \<not> prefix tmpDir p \<longrightarrow> lookup (files w5) p = lookup (files w0) p)"
proof -
  obtain res fs1 where m: "MkdirTemp (umask w0) (TempDir E) ''git-clone-'' (temp_names E) (files w0) = (res, fs1)"
    by (cases "MkdirTemp (umask w0) (TempDir E) ''git-clone-'' (temp_names E) (files w0)")
  show ?thesis
  proof (cases res)
    case (Inl e)
    with m assms show ?thesis
      by (simp add: Fetch_clone_def Let_def split: sum.splits)
  next
    case (Inr t)
    with m MkdirTemp_ok have k: "lookup (files w0) t = None" "fs1 = (t, Dir (448 AND NOT (umask w0))) # files w0"
      by blast+
    have np: "\<not> prefix (t @ [''.git'']) p" if "\<not> prefix t p" for p
      using that by (auto simp: prefix_def)
    have nb: "\<not> prefix (t @ [''.git'']) t"
      by (auto simp: prefix_def)
    have l0: "lookup fs1 t = Some (Dir (448 AND NOT (umask w0)))"
      using k by (simp add: lookup_Cons)
    have l1: "\<not> prefix t p \<Longrightarrow> lookup fs1 p = lookup (files w0) p" for p
      using k by (auto simp: lookup_Cons)
    have g: "lookup (put_entries t a (put_entries (t @ [''.git'']) b
                (put_entries t [([''.git''], Dir 493), ([''.git'', ''HEAD''], File 420 ''ref: refs/heads/master'')] fs1)))
              (t @ [''.git'']) \<noteq> None" for a b
      by (rule lookup_put_entries_some, rule lookup_put_entries_some) (simp add: lookup_init_git)
    show ?thesis
      using assms m Inr k(1) l0 l1 np nb g
      apply (simp add: Fetch_clone_def Let_def PlainInit_def CreateRemote_def InstallProtocol_def
        remote_Fetch_def Checkout_def
      split: sum.splits option.splits if_splits)
      apply (auto simp: InstallProtocol_def remote_Fetch_def Checkout_def Let_def
          lookup_put_entries lookup_put_entries_base lookup_put_entries_some lookup_init_git
          split: sum.splits option.splits if_splits)
      done
  qed
qed

section \<open>Failure before the destination is replaced\<close>

text \<open>
  C1. When a stage before the destination is replaced fails (credential resolution, the
  temporary directory, the repository, the remote, the transport, the fetch, the working
  tree, the revision or the checkout), \<open>Fetch\<close> returns an error, and every path of the
  file system holds what it held before, except the paths inside the scratch directory
  that this call has just made, which did not exist. So all that the destination held
  before the call is unchanged.
\<close>

theorem Fetch_failure_before_materialization_keeps_files:
  assumes "\<not> clone_succeeds E gitURL gitRevision w0"
  shows "\<exists>e w'. Fetch fuel E dir gitURL gitRevision metadataDir w0 = Some (Some e, w') \<and>
     (\<forall>p. lookup (files w') p = lookup (files w0) p \<or>
         (\<exists>tmpDir fs1. MkdirTemp (umask w0) (TempDir E) ''git-clone-'' (temp_names E) (files w0) = (Inr tmpDir, fs1)
              \<and> lookup (files w0) tmpDir = None \<and> prefix tmpDir p))"
proof -
  obtain res fs1 where m: "MkdirTemp (umask w0) (TempDir E) ''git-clone-'' (temp_names E) (files w0) = (res, fs1)"
    by (cases "MkdirTemp (umask w0) (TempDir E) ''git-clone-'' (temp_names E) (files w0)")
  show ?thesis
  proof (cases res)
    case (Inl e)
    with m MkdirTemp_err have "fs1 = files w0" by blast
    with m Inl show ?thesis
      by (simp add: Fetch_def Let_def split: sum.splits)
  next
    case (Inr tmpDir)
    with m MkdirTemp_ok have k: "lookup (files w0) tmpDir = None" "fs1 = (tmpDir, Dir (448 AND NOT (umask w0))) # files w0"
      by blast+
    have np: "\<not> prefix (tmpDir @ [''.git'']) p" if "\<not> prefix tmpDir p" for p
      using that by (auto simp: prefix_def)
    have l1: "lookup (put_entries tmpDir es fs) p = lookup (files w0) p \<or> prefix tmpDir p"
      if "lookup fs p = lookup (files w0) p \<or> prefix tmpDir p" for es fs p
      using that lookup_put_entries [of tmpDir p es fs] by auto
    have l2: "lookup (put_entries (tmpDir @ [''.git'']) es fs) p = lookup (files w0) p \<or> prefix tmpDir p"
      if "lookup fs p = lookup (files w0) p \<or> prefix tmpDir p" for es fs p
      using that lookup_put_entries [of "tmpDir @ [''.git'']" p es fs] np [of p] by auto
    have l0: "lookup fs1 p = lookup (files w0) p \<or> prefix tmpDir p" for p
      using k by (simp add: lookup_Cons)
    show ?thesis
      using assms m Inr k(1) l0 l1 l2
      by (simp add: clone_succeeds_def Fetch_def Let_def PlainInit_def CreateRemote_def InstallProtocol_def
        remote_Fetch_def Checkout_def
      split: sum.splits option.splits) auto
  qed
qed

section \<open>Runs of the example, the scratch directory and the metadata file\<close>

lemma outcome_atD:
  "outcome_at p res = Some (r, n) \<Longrightarrow> \<exists>w. res = Some (r, w) \<and> lookup (files w) p = n"
  by (cases res) (auto simp: outcome_at_def)

lemma run_ok_metadata:
  "outcome_at [''platform'', ''project-metadata.toml'']
     (Fetch 5 env0 [''workspace''] ''https://x/r.git'' ''main'' [''platform''] world0) =
   Some (None, Some (File 420 ''git https://x/r.git main abcd''))"
  by code_simp

lemma not_clone_nope: "\<not> clone_succeeds env0 ''https://x/r.git'' ''nope'' world0"
  by code_simp

lemma clone_main: "clone_succeeds env0 ''https://x/r.git'' ''main'' world0"
  by code_simp

lemma MkdirTemp_env0:
  "MkdirTemp (umask world0) (TempDir env0) ''git-clone-'' (temp_names env0) (files world0) =
     (Inr [''tmp'', ''git-clone-001''], ([''tmp'', ''git-clone-001''], Dir 448) # fs0)"
  using MkdirTemp_world0 by (simp add: env0_def)

lemma Fetch_tail_cases:
  assumes "Fetch fuel E dir gitURL gitRevision metadataDir w0 = Some (r, w')"
    and "Fetch_clone E gitURL gitRevision w0 = Inr (tmpDir, h, w5)"
  shows "files w' = files w5 \<or>
    (\<exists>x fs7. copyDir fuel (umask w0) dir tmpDir (RemoveAll dir (files w5)) = Some (x, fs7) \<and>
       (files w' = fs7 \<or>
        (\<exists>y fs8. x = None \<and> Create (umask w0) (metadataDir @ [''project-metadata.toml'']) fs7 = (y, fs8) \<and>
           (files w' = fs8 \<or>
            (\<exists>text. y = None \<and> files w' = write_file (metadataDir @ [''project-metadata.toml'']) text fs8)))))"
  using assms
  by (auto simp: Fetch_phases split: option.splits prod.splits sum.splits)

lemma Fetch_success:
  assumes "Fetch fuel E dir gitURL gitRevision metadataDir w0 = Some (None, w')"
  shows "\<exists>tmpDir h w5 fs7 fs8 text.
      Fetch_clone E gitURL gitRevision w0 = Inr (tmpDir, h, w5) \<and>
      copyDir fuel (umask w0) dir tmpDir (RemoveAll dir (files w5)) = Some (None, fs7) \<and>
      Create (umask w0) (metadataDir @ [''project-metadata.toml'']) fs7 = (None, fs8) \<and>
      toml_Encode E \<lparr> Source = \<lparr> Type = ''git'',
                     Metadata = \<lparr> Repository = gitURL, Revision = gitRevision \<rparr>,
                     Version = \<lparr> Commit = hash_String h \<rparr> \<rparr> \<rparr> = Inr text \<and>
      files w' = write_file (metadataDir @ [''project-metadata.toml'']) text fs8"
  using assms
  by (auto simp: Fetch_phases split: option.splits prod.splits sum.splits)



lemma frameD: "frame dst fs fs' \<Longrightarrow> \<not> prefix dst q \<Longrightarrow> lookup fs q = Some n \<Longrightarrow> lookup fs' q = Some n"
  unfolding frame_def by (erule allE [of _ q]) simp

lemma Fetch_clone_Inl:
  assumes "Fetch_clone E gitURL gitRevision w0 = Inl (e, w)"
    and "Keychain_Resolve E gitURL = Inr auth"
    and m: "MkdirTemp (umask w0) (TempDir E) ''git-clone-'' (temp_names E) (files w0) = (Inr t, fs1)"
  shows "lookup (files w) t = Some (Dir (448 AND NOT (umask w0)))"
proof -
  from m MkdirTemp_ok have k: "fs1 = (t, Dir (448 AND NOT (umask w0))) # files w0"
    by blast
  have nb: "\<not> prefix (t @ [''.git'']) t"
    by (auto simp: prefix_def)
  have l0: "lookup fs1 t = Some (Dir (448 AND NOT (umask w0)))"
    using k by (simp add: lookup_Cons)
  show ?thesis
    using assms l0 nb
    by (auto simp: Fetch_clone_def PlainInit_def CreateRemote_def InstallProtocol_def remote_Fetch_def
          Checkout_def Let_def lookup_put_entries lookup_put_entries_base
        split: sum.splits option.splits if_splits)
qed

text \<open>
  C8, as the code has it. \<open>Fetch\<close> has no step that removes the scratch directory: once
  the call has made it, it is still there, as the directory \<open>os.MkdirTemp\<close> made, when
  \<open>Fetch\<close> returns, with or without an error, provided the destination is not the scratch
  directory itself or a directory above it (\<open>os.RemoveAll\<close> of the destination would then
  take the scratch directory with it).
\<close>

theorem scratch_directory_is_kept:
  assumes f: "Fetch fuel E dir gitURL gitRevision metadataDir w0 = Some (r, w')"
    and a: "Keychain_Resolve E gitURL = Inr auth"
    and m: "MkdirTemp (umask w0) (TempDir E) ''git-clone-'' (temp_names E) (files w0) = (Inr tmpDir, fs1)"
    and nd: "\<not> prefix dir tmpDir"
  shows "lookup (files w') tmpDir = Some (Dir (448 AND NOT (umask w0)))"
proof (cases "Fetch_clone E gitURL gitRevision w0")
  case (Inl ew)
  obtain e w where "ew = (e, w)" by (cases ew)
  with Inl f Fetch_clone_Inl [OF _ a m, of gitRevision e w] show ?thesis
    by (simp add: Fetch_phases)
next
  case (Inr x)
  obtain t h w5 where x: "x = (t, h, w5)" by (cases x)
  with Inr have c: "Fetch_clone E gitURL gitRevision w0 = Inr (t, h, w5)" by simp
  from Fetch_clone_Inr [OF c] m have t: "t = tmpDir"
    and l5: "lookup (files w5) tmpDir = Some (Dir (448 AND NOT (umask w0)))"
    by auto
  let ?md = "metadataDir @ [''project-metadata.toml'']"
  let ?D = "Some (Dir (448 AND NOT (umask w0)))"
  have cp: "lookup fs7 tmpDir = ?D"
    if "copyDir fuel (umask w0) dir tmpDir (RemoveAll dir (files w5)) = Some (x, fs7)" for x fs7
  proof -
    from copyDir_frame_both(1) [rule_format, OF that]
    have fr: "frame dir (RemoveAll dir (files w5)) fs7" .
    from nd l5 have "lookup (RemoveAll dir (files w5)) tmpDir = ?D" by (simp add: lookup_RemoveAll)
    from frameD [OF fr nd this] show ?thesis .
  qed
  have cr: "lookup fs8 tmpDir = ?D \<and> (y = None \<longrightarrow> ?md \<noteq> tmpDir)"
    if "Create (umask w0) ?md fs7 = (y, fs8)" and "lookup fs7 tmpDir = ?D" for y fs7 fs8
  proof (cases y)
    case None
    with that Create_ok [of "umask w0" ?md fs7 fs8] have "?md \<noteq> tmpDir" by auto
    with that Create_lookup [OF that(1), of tmpDir] show ?thesis by auto
  next
    case (Some e)
    with that Create_err [of "umask w0" ?md fs7 e fs8] show ?thesis by auto
  qed
  from Fetch_tail_cases [OF f c [unfolded t]] consider
      (clone) "files w' = files w5"
    | (copy) x fs7 where "copyDir fuel (umask w0) dir tmpDir (RemoveAll dir (files w5)) = Some (x, fs7)"
        "files w' = fs7"
    | (create) fs7 y fs8 where "copyDir fuel (umask w0) dir tmpDir (RemoveAll dir (files w5)) = Some (None, fs7)"
        "Create (umask w0) ?md fs7 = (y, fs8)" "files w' = fs8"
    | (encode) fs7 fs8 enc where "copyDir fuel (umask w0) dir tmpDir (RemoveAll dir (files w5)) = Some (None, fs7)"
        "Create (umask w0) ?md fs7 = (None, fs8)" "files w' = write_file ?md enc fs8"
    by blast
  then show ?thesis
  proof cases
    case clone
    with l5 show ?thesis by simp
  next
    case copy
    with cp show ?thesis by simp
  next
    case create
    from cr [OF create(2) cp [OF create(1)]] create(3) show ?thesis by simp
  next
    case encode
    from cr [OF encode(2) cp [OF encode(1)]] have "lookup fs8 tmpDir = ?D" "?md \<noteq> tmpDir" by auto
    with encode(3) show ?thesis by (simp add: write_file_lookup)
  qed
qed



lemma MkdirTemp_name:
  "MkdirTemp um d pat rs fs = (Inr t, fs') \<Longrightarrow> \<exists>r. t = d @ [pat @ r]"
  by (induction rs) (auto split: if_splits option.splits node.splits prod.splits err.splits)

text \<open>
  C10. When \<open>project-metadata.toml\<close> is already there before a successful \<open>Fetch\<close>, the
  call has not failed on it and has not appended to it: afterwards the file holds exactly
  the new descriptor. When the file lies outside the destination and the metadata
  directory outside the temporary directory, it is the old file truncated and written
  again: it keeps its mode.
\<close>

theorem existing_metadata_file_is_overwritten:
  assumes f: "Fetch fuel E dir gitURL gitRevision metadataDir w0 = Some (None, w')"
    and old: "lookup (files w0) (metadataDir @ [''project-metadata.toml'']) = Some (File m0 c0)"
  shows "\<exists>h enc m. ResolveRevision_result E gitRevision = Inr h
      \<and> toml_Encode E \<lparr> Source = \<lparr> Type = ''git'',
                     Metadata = \<lparr> Repository = gitURL, Revision = gitRevision \<rparr>,
                     Version = \<lparr> Commit = hash_String h \<rparr> \<rparr> \<rparr> = Inr enc
      \<and> lookup (files w') (metadataDir @ [''project-metadata.toml'']) = Some (File m enc)
      \<and> (\<not> prefix dir (metadataDir @ [''project-metadata.toml'']) \<and> \<not> prefix (TempDir E) metadataDir
            \<longrightarrow> m = m0)"
proof -
  let ?md = "metadataDir @ [''project-metadata.toml'']"
  from Fetch_success [OF f] obtain tmpDir h w5 fs7 fs8 enc where
    c: "Fetch_clone E gitURL gitRevision w0 = Inr (tmpDir, h, w5)" and
    cp: "copyDir fuel (umask w0) dir tmpDir (RemoveAll dir (files w5)) = Some (None, fs7)" and
    cr: "Create (umask w0) ?md fs7 = (None, fs8)" and
    en: "toml_Encode E \<lparr> Source = \<lparr> Type = ''git'',
                     Metadata = \<lparr> Repository = gitURL, Revision = gitRevision \<rparr>,
                     Version = \<lparr> Commit = hash_String h \<rparr> \<rparr> \<rparr> = Inr enc" and
    fw: "files w' = write_file ?md enc fs8"
    by blast
  note ci = Fetch_clone_Inr [OF c]
  from Create_ok [OF cr] obtain m where
    m8: "lookup fs8 ?md = Some (File m [])" and
    mk: "\<forall>m0 c0. lookup fs7 ?md = Some (File m0 c0) \<longrightarrow> m = m0"
    by blast
  from m8 fw have fin: "lookup (files w') ?md = Some (File m enc)" by (simp add: write_file_lookup)
  have "m = m0" if nd: "\<not> prefix dir ?md" and nt: "\<not> prefix (TempDir E) metadataDir"
  proof -
    from ci obtain fs1 where "MkdirTemp (umask w0) (TempDir E) ''git-clone-'' (temp_names E) (files w0) = (Inr tmpDir, fs1)"
      by blast
    from MkdirTemp_name [OF this] obtain r where t: "tmpDir = TempDir E @ [''git-clone-'' @ r]" by blast
    have ntm: "\<not> prefix tmpDir ?md"
    proof
      assume "prefix tmpDir ?md"
      then have "prefix (TempDir E @ [''git-clone-'' @ r]) (metadataDir @ [''project-metadata.toml''])"
        by (simp add: t)
      then have "prefix (TempDir E) metadataDir"
        by (auto simp: prefix_snoc dest: append_prefixD)
      with nt show False by simp
    qed
    from ci ntm old have "lookup (files w5) ?md = Some (File m0 c0)" by simp
    with nd have "lookup (RemoveAll dir (files w5)) ?md = Some (File m0 c0)" by (simp add: lookup_RemoveAll)
    from frameD [OF copyDir_frame_both(1) [rule_format, OF cp] nd this]
    have "lookup fs7 ?md = Some (File m0 c0)" .
    with mk show ?thesis by simp
  qed
  with ci en fin show ?thesis by blast
qed

lemma run_rerun_metadata:
  "outcome_at [''platform'', ''project-metadata.toml'']
     (Fetch 5 env0 [''workspace''] ''https://x/r.git'' ''main'' [''platform''] world_rerun) =
   Some (None, Some (File 384 ''git https://x/r.git main abcd''))"
  by code_simp

theorem existing_metadata_file_is_overwritten_witness:
  "lookup (files world_rerun) [''platform'', ''project-metadata.toml''] = Some (File 384 ''stale'')
   \<and> (\<exists>w' enc. Fetch 5 env0 [''workspace''] ''https://x/r.git'' ''main'' [''platform''] world_rerun = Some (None, w')
         \<and> toml_Encode env0 \<lparr> Source = \<lparr> Type = ''git'',
                     Metadata = \<lparr> Repository = ''https://x/r.git'', Revision = ''main'' \<rparr>,
                     Version = \<lparr> Commit = ''abcd'' \<rparr> \<rparr> \<rparr> = Inr enc
         \<and> lookup (files w') [''platform'', ''project-metadata.toml''] = Some (File 384 enc))"
proof -
  from outcome_atD [OF run_rerun_metadata] obtain w' where
    f: "Fetch 5 env0 [''workspace''] ''https://x/r.git'' ''main'' [''platform''] world_rerun = Some (None, w')"
    by auto
  have old: "lookup (files world_rerun) ([''platform''] @ [''project-metadata.toml'']) = Some (File 384 ''stale'')"
    by (simp add: world_rerun_def lookup_def)
  have nd: "\<not> prefix [''workspace''] ([''platform''] @ [''project-metadata.toml''])" by simp
  have nt: "\<not> prefix (TempDir env0) [''platform'']" by (simp add: env0_def)
  have r: "ResolveRevision_result env0 ''main'' = Inr [171, 205]" by (simp add: env0_def)
  have hs: "hash_String [171, 205] = ''abcd''" by code_simp
  from existing_metadata_file_is_overwritten [OF f old] nd nt obtain h enc where
    k: "ResolveRevision_result env0 ''main'' = Inr h"
       "toml_Encode env0 \<lparr> Source = \<lparr> Type = ''git'',
                     Metadata = \<lparr> Repository = ''https://x/r.git'', Revision = ''main'' \<rparr>,
                     Version = \<lparr> Commit = hash_String h \<rparr> \<rparr> \<rparr> = Inr enc"
       "lookup (files w') ([''platform''] @ [''project-metadata.toml'']) = Some (File 384 enc)"
    by blast
  from k(1) r have "h = [171, 205]" by simp
  with k hs f old show ?thesis by auto
qed

text \<open>The run of the example makes the one fetch that C7 describes.\<close>

theorem Fetch_fetches_all_refs_from_origin_witness:
  "\<exists>w'. Fetch 5 env0 [''workspace''] ''https://x/r.git'' ''main'' [''platform''] world0 = Some (None, w')
     \<and> fetch_calls w' =
          [(\<lparr> repo_path = [''tmp'', ''git-clone-001''],
              repo_remotes = [\<lparr> rc_Name = ''origin'', rc_URLs = [''https://x/r.git''] \<rparr>] \<rparr>,
            \<lparr> rc_Name = ''origin'', rc_URLs = [''https://x/r.git''] \<rparr>,
            \<lparr> RefSpecs = [''refs/*:refs/*''], Auth = NoAuth \<rparr>)]"
proof -
  from outcome_atD [OF run_ok_metadata] obtain w' where
    f: "Fetch 5 env0 [''workspace''] ''https://x/r.git'' ''main'' [''platform''] world0 = Some (None, w')"
    by auto
  have a: "Keychain_Resolve env0 ''https://x/r.git'' = Inr NoAuth" by (simp add: env0_def)
  have i: "PlainInit_err env0 = None" "CreateRemote_err env0 = None" by (simp_all add: env0_def)
  have t: "getHttpsTransport env0 = Inr DefaultClient" by (simp add: getHttpsTransport_def env0_def)
  have c: "fetch_calls world0 = []" by (simp add: world0_def)
  from Fetch_fetches_all_refs_from_origin [OF f a MkdirTemp_env0 i t] c f show ?thesis by simp
qed

text \<open>In the example, a revision that does not resolve leaves the old file of the
  destination as it was.\<close>

theorem Fetch_failure_before_materialization_keeps_files_witness:
  "\<not> clone_succeeds env0 ''https://x/r.git'' ''nope'' world0
   \<and> (\<exists>e w'. Fetch 5 env0 [''workspace''] ''https://x/r.git'' ''nope'' [''platform''] world0 = Some (Some e, w')
         \<and> lookup (files w') [''workspace'', ''old.txt''] = lookup (files world0) [''workspace'', ''old.txt''])"
proof -
  from Fetch_failure_before_materialization_keeps_files [OF not_clone_nope, of 5 "[''workspace'']" "[''platform'']"]
  obtain e w' where
    f: "Fetch 5 env0 [''workspace''] ''https://x/r.git'' ''nope'' [''platform''] world0 = Some (Some e, w')"
    and fr: "\<forall>p. lookup (files w') p = lookup (files world0) p \<or>
         (\<exists>tmpDir fs1. MkdirTemp (umask world0) (TempDir env0) ''git-clone-'' (temp_names env0) (files world0) = (Inr tmpDir, fs1)
              \<and> lookup (files world0) tmpDir = None \<and> prefix tmpDir p)"
    by blast
  from fr [rule_format, of "[''workspace'', ''old.txt'']"] MkdirTemp_env0
  have "lookup (files w') [''workspace'', ''old.txt''] = lookup (files world0) [''workspace'', ''old.txt'']"
    by auto
  with f not_clone_nope show ?thesis by blast
qed

text \<open>
  C8 as stated fails when the destination lies above the scratch directory: with the
  temporary directory itself as destination, \<open>os.RemoveAll\<close> removes the scratch
  directory that \<open>os.MkdirTemp\<close> has made, and \<open>Fetch\<close> returns (with the error of
  \<open>copyDir\<close>) with the scratch directory gone.
\<close>

theorem scratch_directory_removed_with_destination:
  "MkdirTemp (umask world0) (TempDir env0) ''git-clone-'' (temp_names env0) (files world0) =
     (Inr [''tmp'', ''git-clone-001''], ([''tmp'', ''git-clone-001''], Dir 448) # fs0)
   \<and> outcome_at [''tmp'', ''git-clone-001'']
        (Fetch 5 env0 [''tmp''] ''https://x/r.git'' ''main'' [''platform''] world0) =
      Some (Some (Wrap (ENOENT [''tmp'', ''git-clone-001'']) (Ctx ''copying directory'')), None)"
proof -
  have "outcome_at [''tmp'', ''git-clone-001'']
        (Fetch 5 env0 [''tmp''] ''https://x/r.git'' ''main'' [''platform''] world0) =
      Some (Some (Wrap (ENOENT [''tmp'', ''git-clone-001'']) (Ctx ''copying directory'')), None)"
    by code_simp
  with MkdirTemp_env0 show ?thesis by simp
qed

theorem scratch_directory_is_kept_witness:
  "\<exists>w'. Fetch 5 env0 [''workspace''] ''https://x/r.git'' ''main'' [''platform''] world0 = Some (None, w')
     \<and> lookup (files w') [''tmp'', ''git-clone-001''] = Some (Dir (448 AND NOT (umask world0)))"
proof -
  from outcome_atD [OF run_ok_metadata] obtain w' where
    f: "Fetch 5 env0 [''workspace''] ''https://x/r.git'' ''main'' [''platform''] world0 = Some (None, w')"
    by auto
  have a: "Keychain_Resolve env0 ''https://x/r.git'' = Inr NoAuth" by (simp add: env0_def)
  have nd: "\<not> prefix [''workspace''] [''tmp'', ''git-clone-001'']" by simp
  from scratch_directory_is_kept [OF f a MkdirTemp_env0 nd] f show ?thesis by blast
qed

section \<open>copyDir copies a tree\<close>

lemma lookup_None_iff: "lookup fs p = None \<longleftrightarrow> p \<notin> fst ` set fs"
  by (simp add: lookup_def map_of_eq_None_iff)

lemma is_tree_parent:
  assumes "is_tree fs src" and "lookup fs (src @ q @ [n]) \<noteq> None"
  shows "\<exists>m. lookup fs (src @ q) = Some (Dir m)"
proof -
  from assms(2) have "src @ q @ [n] \<in> fst ` set fs"
    by (simp add: lookup_None_iff)
  then obtain x where "(src @ q @ [n], x) \<in> set fs"
    by auto
  with assms(1) have "case lookup fs (butlast (src @ q @ [n])) of Some (Dir m) \<Rightarrow> True | _ \<Rightarrow> False"
    by (auto simp: is_tree_def list_all_iff)
  moreover have "butlast (src @ q @ [n]) = src @ q"
    by (simp add: butlast_append)
  ultimately show ?thesis
    by (auto split: option.splits node.splits)
qed

lemma is_tree_closed_below: "is_tree fs src \<Longrightarrow> closed_below fs src"
  unfolding closed_below_def using is_tree_parent by blast

lemma closed_below_above:
  assumes "closed_below fs src" and "lookup fs (src @ a @ b) \<noteq> None" and "b \<noteq> []"
  shows "\<exists>m. lookup fs (src @ a) = Some (Dir m)"
  using assms(2,3)
proof (induction b rule: rev_induct)
  case Nil then show ?case by simp
next
  case (snoc x b)
  from assms(1) snoc.prems have d: "\<exists>m. lookup fs (src @ a @ b) = Some (Dir m)"
    unfolding closed_below_def by (metis append_assoc)
  show ?case
  proof (cases "b = []")
    case True with d show ?thesis by simp
  next
    case False with d snoc.IH show ?thesis by auto
  qed
qed

lemma closed_below_cong:
  assumes "closed_below fs src" and "\<And>q. lookup fs' (src @ q) = lookup fs (src @ q)"
  shows "closed_below fs' src"
  unfolding closed_below_def
proof (intro allI impI)
  fix q n assume "lookup fs' (src @ q @ [n]) \<noteq> None"
  with assms(2) [of "q @ [n]"] have "lookup fs (src @ q @ [n]) \<noteq> None" by simp
  with assms(1) have "\<exists>m. lookup fs (src @ q) = Some (Dir m)" unfolding closed_below_def by blast
  with assms(2) [of q] show "\<exists>m. lookup fs' (src @ q) = Some (Dir m)" by simp
qed

lemma closed_below_child: "closed_below fs src \<Longrightarrow> closed_below fs (src @ a)"
  unfolding closed_below_def by (metis append_assoc)

lemma closed_below_not_dir:
  assumes "closed_below fs src" and "\<forall>m. lookup fs (src @ [n]) \<noteq> Some (Dir m)" and "q \<noteq> []"
  shows "lookup fs (src @ n # q) = None"
proof (rule ccontr)
  assume "lookup fs (src @ n # q) \<noteq> None"
  then have "lookup fs (src @ [n] @ q) \<noteq> None" by simp
  from closed_below_above [OF assms(1) this assms(3)] assms(2) show False by auto
qed

lemma disjoint_below:
  assumes "\<not> prefix dst src" and "\<not> prefix src dst"
  shows "\<not> prefix (dst @ a) (src @ b)"
proof
  assume "prefix (dst @ a) (src @ b)"
  then have "prefix dst (src @ b)" by (rule append_prefixD)
  then have "prefix dst src \<or> prefix src dst" by (auto simp: prefix_append)
  with assms show False by simp
qed

lemma ReadDir_set:
  assumes "ReadDir p fs = Inr es"
  shows "distinct es \<and> set es = {n. lookup fs (p @ [n]) \<noteq> None} \<and> (\<exists>m. lookup fs p = Some (Dir m))"
proof -
  from assms have e: "es = remdups (map (\<lambda>(q, n). last q) (filter (\<lambda>(q, n). q \<noteq> [] \<and> butlast q = p) fs))"
    and d: "\<exists>m. lookup fs p = Some (Dir m)"
    by (auto simp: ReadDir_def split: option.splits node.splits)
  have "set es = {n. p @ [n] \<in> fst ` set fs}"
  proof (intro set_eqI iffI)
    fix n assume "n \<in> set es"
    with e obtain q x where "(q, x) \<in> set fs" "q \<noteq> []" "butlast q = p" "n = last q" by auto
    then have "q = p @ [n]" using append_butlast_last_id [of q] by simp
    with \<open>(q, x) \<in> set fs\<close> show "n \<in> {n. p @ [n] \<in> fst ` set fs}" by force
  next
    fix n assume "n \<in> {n. p @ [n] \<in> fst ` set fs}"
    then obtain x where "(p @ [n], x) \<in> set fs" by auto
    then have "(\<lambda>(q, n). last q) (p @ [n], x) \<in> set es" unfolding e
      by (simp only: set_remdups set_map) (rule imageI, simp add: butlast_append)
    then show "n \<in> set es" by simp
  qed
  moreover have "{n. p @ [n] \<in> fst ` set fs} = {n. lookup fs (p @ [n]) \<noteq> None}"
    by (simp add: lookup_None_iff)
  ultimately show ?thesis using e d by simp
qed

lemma getFileInfos_ok:
  "getFileInfos (map (\<lambda>n. src @ [n]) es) fs = Inr infos \<Longrightarrow>
     map Name infos = es \<and>
     (\<forall>fi \<in> set infos. \<exists>n. lookup fs (src @ [Name fi]) = Some n \<and> IsDir fi = node_is_dir n)"
proof (induction es arbitrary: infos)
  case Nil then show ?case by simp
next
  case (Cons e es)
  then show ?case
    by (auto simp: Stat_def info_of_def split: option.splits sum.splits)
qed

lemma MkdirAll_fresh:
  assumes "MkdirAll um dst perm fs = (None, fs1)" and "lookup fs dst = None"
  shows "lookup fs1 dst = Some (Dir (perm AND NOT um))"
proof (cases "rev dst")
  case Nil
  with assms show ?thesis by (auto simp: MkdirAll_def split: option.splits node.splits)
next
  case (Cons c rp)
  then have d: "dst = rev (c # rp)" by (metis rev_rev_ident)
  from assms Cons have "\<exists>fs0. Mkdir um (rev (c # rp)) perm fs0 = (None, fs1)"
    by (auto simp: MkdirAll_def d split: option.splits prod.splits)
  then obtain fs0 where "Mkdir um dst perm fs0 = (None, fs1)" using d by auto
  from Mkdir_lookup [OF this, of dst] show ?thesis by simp
qed

lemma MkdirAll_below:
  assumes "MkdirAll um dst perm fs = (r, fs1)" and "q \<noteq> []"
  shows "lookup fs1 (dst @ q) = lookup fs (dst @ q)"
  using MkdirAll_rev_frame [of um "rev dst" perm fs r fs1 "dst @ q"] assms
  by (auto simp: MkdirAll_def)

lemma frame_exact:
  assumes "frame d fs fs1" and "\<not> prefix d p" and "lookup fs p \<noteq> None \<or> \<not> prefix p d"
  shows "lookup fs1 p = lookup fs p"
  using assms unfolding frame_def by (erule_tac x = p in allE) auto

lemma copyEntries_correct:
  assumes A: "\<And>dst src fs fs'. copyDir k um dst src fs = Some (None, fs') \<Longrightarrow>
       \<not> prefix dst src \<Longrightarrow> \<not> prefix src dst \<Longrightarrow> closed_below fs src \<Longrightarrow>
       (\<forall>q. lookup fs (dst @ q) = None) \<Longrightarrow>
       (\<forall>q. lookup fs' (dst @ q) = map_option (copied um) (lookup fs (src @ q)))"
  shows "copyEntries k um dst src infos fs = Some (None, fs') \<Longrightarrow>
       \<not> prefix dst src \<Longrightarrow> \<not> prefix src dst \<Longrightarrow> closed_below fs src \<Longrightarrow>
       distinct (map Name infos) \<Longrightarrow>
       (\<forall>fi \<in> set infos. \<exists>n. lookup fs (src @ [Name fi]) = Some n \<and> IsDir fi = node_is_dir n) \<Longrightarrow>
       lookup fs dst \<noteq> None \<Longrightarrow>
       (\<forall>fi \<in> set infos. \<forall>q. lookup fs (dst @ Name fi # q) = None) \<Longrightarrow>
       (\<forall>fi \<in> set infos. \<forall>q. lookup fs' (dst @ Name fi # q) = map_option (copied um) (lookup fs (src @ Name fi # q)))
       \<and> (\<forall>p. prefix dst p \<longrightarrow> (\<forall>fi \<in> set infos. \<not> prefix (dst @ [Name fi]) p) \<longrightarrow> lookup fs' p = lookup fs p)"
proof (induction infos arbitrary: fs)
  case Nil
  then show ?case by simp
next
  case (Cons fi fis)
  let ?n = "Name fi"
  note run = Cons.prems(1) and nds = Cons.prems(2) and nsd = Cons.prems(3) and cb = Cons.prems(4)
    and dis = Cons.prems(5) and faith = Cons.prems(6) and dex = Cons.prems(7) and emp = Cons.prems(8)
  from faith obtain nd where nd: "lookup fs (src @ [?n]) = Some nd" "IsDir fi = node_is_dir nd" by auto
  have ne: "dst \<noteq> src" using nds by auto
  \<comment> \<open>the step for the first entry\<close>
  have "\<exists>fs1. copyEntries k um dst src fis fs1 = Some (None, fs')
     \<and> (\<forall>q. lookup fs1 (dst @ ?n # q) = map_option (copied um) (lookup fs (src @ ?n # q)))
     \<and> (\<forall>p. \<not> prefix (dst @ [?n]) p \<longrightarrow> lookup fs p \<noteq> None \<or> \<not> prefix p (dst @ [?n]) \<longrightarrow> lookup fs1 p = lookup fs p)"
  proof (cases "IsDir fi")
    case True
    from run True obtain fs1 where
      c: "copyDir k um (dst @ [?n]) (src @ [?n]) fs = Some (None, fs1)" and
      r: "copyEntries k um dst src fis fs1 = Some (None, fs')"
      by (auto split: option.splits prod.splits)
    have e: "\<forall>q. lookup fs ((dst @ [?n]) @ q) = None" using emp by simp
    from A [OF c disjoint_below [OF nds nsd] disjoint_below [OF nsd nds] closed_below_child [OF cb] e]
    have f1: "\<forall>q. lookup fs1 (dst @ ?n # q) = map_option (copied um) (lookup fs (src @ ?n # q))" by simp
    from copyDir_frame_both(1) [rule_format, OF c] have fr: "frame (dst @ [?n]) fs fs1" .
    have "\<forall>p. \<not> prefix (dst @ [?n]) p \<longrightarrow> lookup fs p \<noteq> None \<or> \<not> prefix p (dst @ [?n]) \<longrightarrow> lookup fs1 p = lookup fs p"
      using frame_exact [OF fr] by blast
    with r f1 show ?thesis by blast
  next
    case False
    from run False obtain fs1 where
      c: "copyFile um (dst @ [?n]) (src @ [?n]) fs = (None, fs1)" and
      r: "copyEntries k um dst src fis fs1 = Some (None, fs')"
      by (auto split: option.splits prod.splits)
    from ne have "dst @ [?n] \<noteq> src @ [?n]" by simp
    from copyFile_ok [OF c this] obtain m cc where
      sf: "lookup fs (src @ [?n]) = Some (File m cc)" and df: "lookup fs1 (dst @ [?n]) = Some (File m cc)"
      by blast
    have oth: "lookup fs1 p = lookup fs p" if "p \<noteq> dst @ [?n]" for p
      using copyFile_other [OF c that] .
    have f1: "lookup fs1 (dst @ ?n # q) = map_option (copied um) (lookup fs (src @ ?n # q))" for q
    proof (cases "q = []")
      case True with sf df show ?thesis by simp
    next
      case False
      from sf have "\<forall>m. lookup fs (src @ [?n]) \<noteq> Some (Dir m)" by simp
      from closed_below_not_dir [OF cb this False] have "lookup fs (src @ ?n # q) = None" .
      moreover from False have "dst @ ?n # q \<noteq> dst @ [?n]" by simp
      from oth [OF this] emp have "lookup fs1 (dst @ ?n # q) = None" by simp
      ultimately show ?thesis by simp
    qed
    have "\<forall>p. \<not> prefix (dst @ [?n]) p \<longrightarrow> lookup fs p \<noteq> None \<or> \<not> prefix p (dst @ [?n]) \<longrightarrow> lookup fs1 p = lookup fs p"
      using oth by auto
    with r f1 show ?thesis by blast
  qed
  then obtain fs1 where
    r: "copyEntries k um dst src fis fs1 = Some (None, fs')" and
    f1: "\<And>q. lookup fs1 (dst @ ?n # q) = map_option (copied um) (lookup fs (src @ ?n # q))" and
    g: "\<And>p. \<not> prefix (dst @ [?n]) p \<Longrightarrow> lookup fs p \<noteq> None \<or> \<not> prefix p (dst @ [?n]) \<Longrightarrow> lookup fs1 p = lookup fs p"
    by blast
  \<comment> \<open>what the step leaves alone\<close>
  have src_same: "lookup fs1 (src @ q) = lookup fs (src @ q)" for q
  proof (rule g)
    from disjoint_below [OF nds nsd, of "[?n]" q] show "\<not> prefix (dst @ [?n]) (src @ q)" .
    from disjoint_below [OF nsd nds, of q "[?n]"] show "lookup fs (src @ q) \<noteq> None \<or> \<not> prefix (src @ q) (dst @ [?n])"
      by simp
  qed
  have dst_same: "lookup fs1 dst = lookup fs dst"
    using g [of dst] dex by simp
  have other_same: "lookup fs1 (dst @ n' # q) = lookup fs (dst @ n' # q)" if "n' \<noteq> ?n" for n' q
    using g [of "dst @ n' # q"] that by (simp add: prefix_def)
  have cb1: "closed_below fs1 src" using closed_below_cong [OF cb src_same] .
  have faith1: "\<forall>fi' \<in> set fis. \<exists>n. lookup fs1 (src @ [Name fi']) = Some n \<and> IsDir fi' = node_is_dir n"
    using faith src_same by simp
  have dex1: "lookup fs1 dst \<noteq> None" using dst_same dex by simp
  have emp1: "\<forall>fi' \<in> set fis. \<forall>q. lookup fs1 (dst @ Name fi' # q) = None"
  proof (intro ballI allI)
    fix fi' q assume m: "fi' \<in> set fis"
    with dis have "Name fi' \<noteq> ?n" by (metis distinct.simps(2) image_eqI list.simps(9) set_map)
    from other_same [OF this] emp m show "lookup fs1 (dst @ Name fi' # q) = None" by simp
  qed
  from dis have dis1: "distinct (map Name fis)" by simp
  from Cons.IH [OF r nds nsd cb1 dis1 faith1 dex1 emp1] have
    ih1: "\<forall>fi' \<in> set fis. \<forall>q. lookup fs' (dst @ Name fi' # q) = map_option (copied um) (lookup fs1 (src @ Name fi' # q))" and
    ih2: "\<forall>p. prefix dst p \<longrightarrow> (\<forall>fi' \<in> set fis. \<not> prefix (dst @ [Name fi']) p) \<longrightarrow> lookup fs' p = lookup fs1 p"
    by blast+
  have first: "lookup fs' (dst @ ?n # q) = map_option (copied um) (lookup fs (src @ ?n # q))" for q
  proof -
    have "\<forall>fi' \<in> set fis. \<not> prefix (dst @ [Name fi']) (dst @ ?n # q)"
    proof
      fix fi' assume "fi' \<in> set fis"
      with dis have "Name fi' \<noteq> ?n" by (metis distinct.simps(2) image_eqI list.simps(9) set_map)
      then show "\<not> prefix (dst @ [Name fi']) (dst @ ?n # q)" by simp
    qed
    with ih2 have "lookup fs' (dst @ ?n # q) = lookup fs1 (dst @ ?n # q)" by simp
    with f1 show ?thesis by simp
  qed
  have rest: "lookup fs' (dst @ Name fi' # q) = map_option (copied um) (lookup fs (src @ Name fi' # q))"
    if "fi' \<in> set fis" for fi' q
    using ih1 that src_same [of "Name fi' # q"] by simp
  have fram: "lookup fs' p = lookup fs p"
    if pd: "prefix dst p" and nc: "\<forall>fi' \<in> set (fi # fis). \<not> prefix (dst @ [Name fi']) p" for p
  proof -
    from ih2 pd nc have a: "lookup fs' p = lookup fs1 p" by simp
    from nc have n1: "\<not> prefix (dst @ [?n]) p" by simp
    have "lookup fs p \<noteq> None \<or> \<not> prefix p (dst @ [?n])"
    proof (cases "p = dst")
      case True with dex show ?thesis by simp
    next
      case False
      have "\<not> prefix p (dst @ [?n])"
      proof
        assume "prefix p (dst @ [?n])"
        then have "p = dst @ [?n] \<or> prefix p dst" by (simp add: prefix_snoc)
        with n1 have "prefix p dst" by auto
        with pd False show False by (simp add: prefix_order.antisym)
      qed
      then show ?thesis by simp
    qed
    from g [OF n1 this] a show ?thesis by simp
  qed
  show ?case
    using first rest fram by auto
qed

lemma copyDir_correct:
  "copyDir k um dst src fs = Some (None, fs') \<Longrightarrow>
     \<not> prefix dst src \<Longrightarrow> \<not> prefix src dst \<Longrightarrow> closed_below fs src \<Longrightarrow>
     (\<forall>q. lookup fs (dst @ q) = None) \<Longrightarrow>
     (\<forall>q. lookup fs' (dst @ q) = map_option (copied um) (lookup fs (src @ q)))"
proof (induction k arbitrary: dst src fs fs')
  case 0
  then show ?case by simp
next
  case (Suc k)
  note run = Suc.prems(1) and nds = Suc.prems(2) and nsd = Suc.prems(3) and cb = Suc.prems(4)
    and emp = Suc.prems(5)
  from run obtain n0 fs1 entries infos where
    st: "lookup fs src = Some n0" and
    mk: "MkdirAll um dst (node_mode n0) fs = (None, fs1)" and
    rd: "ReadDir src fs1 = Inr entries" and
    gi: "getFileInfos (map (\<lambda>n. src @ [n]) entries) fs1 = Inr infos" and
    lp: "copyEntries k um dst src infos fs1 = Some (None, fs')"
    by (auto simp: Stat_def info_of_def split: option.splits sum.splits prod.splits)
  from MkdirAll_frame [OF mk] have fr: "frame dst fs fs1" .
  have src_same: "lookup fs1 (src @ q) = lookup fs (src @ q)" for q
  proof (rule frame_exact [OF fr])
    from disjoint_below [OF nds nsd, of "[]" q] show "\<not> prefix dst (src @ q)" by simp
    from disjoint_below [OF nsd nds, of q "[]"] show "lookup fs (src @ q) \<noteq> None \<or> \<not> prefix (src @ q) dst"
      by simp
  qed
  from ReadDir_set [OF rd] obtain m where
    de: "distinct entries" and se: "set entries = {n. lookup fs1 (src @ [n]) \<noteq> None}" and
    sd: "lookup fs1 src = Some (Dir m)"
    by blast
  from src_same [of "[]"] sd st have n0: "n0 = Dir m" by simp
  from emp [rule_format, of "[]"] have "lookup fs dst = None" by simp
  from MkdirAll_fresh [OF mk this] n0 have dd: "lookup fs1 dst = Some (Dir (m AND NOT um))" by simp
  have below: "lookup fs1 (dst @ q) = None" if "q \<noteq> []" for q
    using MkdirAll_below [OF mk that] emp by simp
  from getFileInfos_ok [OF gi] have
    nm: "map Name infos = entries" and
    faith: "\<forall>fi \<in> set infos. \<exists>n. lookup fs1 (src @ [Name fi]) = Some n \<and> IsDir fi = node_is_dir n"
    by blast+
  have cb1: "closed_below fs1 src" using closed_below_cong [OF cb src_same] .
  from de nm have dis: "distinct (map Name infos)" by simp
  from dd have dex: "lookup fs1 dst \<noteq> None" by simp
  have emp1: "\<forall>fi \<in> set infos. \<forall>q. lookup fs1 (dst @ Name fi # q) = None"
    using below by simp
  from copyEntries_correct [where k = k and um = um, OF Suc.IH lp nds nsd cb1 dis faith dex emp1] have
    l1: "\<forall>fi \<in> set infos. \<forall>q. lookup fs' (dst @ Name fi # q) = map_option (copied um) (lookup fs1 (src @ Name fi # q))" and
    l2: "\<forall>p. prefix dst p \<longrightarrow> (\<forall>fi \<in> set infos. \<not> prefix (dst @ [Name fi]) p) \<longrightarrow> lookup fs' p = lookup fs1 p"
    by blast+
  from nm have names: "Name ` set infos = set entries" by (metis set_map)
  show ?case
  proof
    fix q
    show "lookup fs' (dst @ q) = map_option (copied um) (lookup fs (src @ q))"
    proof (cases q)
      case Nil
      from l2 [rule_format, of dst] have "lookup fs' dst = lookup fs1 dst" by simp
      with dd st n0 Nil show ?thesis by simp
    next
      case (Cons n q')
      show ?thesis
      proof (cases "n \<in> set entries")
        case True
        with names have "n \<in> Name ` set infos" by simp
        then obtain fi where "fi \<in> set infos" "Name fi = n" by (auto simp: image_iff)
        with l1 src_same [of "n # q'"] Cons show ?thesis by auto
      next
        case False
        with se have s1: "lookup fs1 (src @ [n]) = None" by simp
        with src_same [of "[n]"] have s0: "lookup fs (src @ [n]) = None" by simp
        have sn: "lookup fs (src @ n # q') = None"
        proof (cases "q' = []")
          case True with s0 show ?thesis by simp
        next
          case False
          from s0 have "\<forall>m. lookup fs (src @ [n]) \<noteq> Some (Dir m)" by simp
          from closed_below_not_dir [OF cb this False] show ?thesis .
        qed
        have "\<forall>fi \<in> set infos. \<not> prefix (dst @ [Name fi]) (dst @ n # q')"
        proof
          fix fi assume "fi \<in> set infos"
          then have "Name fi \<in> Name ` set infos" by (rule imageI)
          with names False have "Name fi \<noteq> n" by auto
          then show "\<not> prefix (dst @ [Name fi]) (dst @ n # q')" by simp
        qed
        with l2 [rule_format, of "dst @ n # q'"] have "lookup fs' (dst @ n # q') = lookup fs1 (dst @ n # q')"
          by simp
        with below [of "n # q'"] sn Cons show ?thesis by simp
      qed
    qed
  qed
qed

section \<open>What the destination holds afterwards\<close>

lemma outcome_filesD:
  "outcome_files res = Some (r, fs) \<Longrightarrow> \<exists>w. res = Some (r, w) \<and> files w = fs"
  by (cases res) (auto simp: outcome_files_def)

lemma run_ok_files:
  "outcome_files (Fetch 5 env0 [''workspace''] ''https://x/r.git'' ''main'' [''platform''] world0) =
     Some (None, files_after)"
  by code_simp

lemma run_nowhere_files:
  "outcome_files (Fetch 5 env0 [''workspace''] ''https://x/r.git'' ''main'' [''nowhere''] world0) =
     Some (Some (Wrap (ENOENT [''nowhere'', ''project-metadata.toml''])
                   (CtxInvalidMetadataDestination [''nowhere''] ''https://x/r.git'')), files_after_failure)"
  by code_simp

lemma is_tree_files_after: "is_tree files_after [''tmp'', ''git-clone-001'']"
  by code_simp

lemma is_tree_files_after_failure: "is_tree files_after_failure [''tmp'', ''git-clone-001'']"
  by code_simp

lemma clone_succeeds_Inr:
  assumes "clone_succeeds E gitURL gitRevision w0"
  shows "\<exists>t h w5. Fetch_clone E gitURL gitRevision w0 = Inr (t, h, w5)"
proof -
  obtain res fs1 where m: "MkdirTemp (umask w0) (TempDir E) ''git-clone-'' (temp_names E) (files w0) = (res, fs1)"
    by (cases "MkdirTemp (umask w0) (TempDir E) ''git-clone-'' (temp_names E) (files w0)")
  show ?thesis
    using assms m
    by (cases res)
      (auto simp: clone_succeeds_def Fetch_clone_def Let_def PlainInit_def CreateRemote_def InstallProtocol_def
        remote_Fetch_def Checkout_def split: sum.splits option.splits)
qed

lemma materialized:
  assumes c: "Fetch_clone E gitURL gitRevision w0 = Inr (tmpDir, h, w5)"
    and cp: "copyDir fuel (umask w0) dir tmpDir (RemoveAll dir (files w5)) = Some (None, fs7)"
    and fin: "\<And>p. p \<noteq> mdfile \<Longrightarrow> lookup fsF p = lookup fs7 p"
    and ndt: "\<not> prefix dir tmpDir" and ntd: "\<not> prefix tmpDir dir"
    and ndm: "\<not> prefix dir mdfile" and ntm: "\<not> prefix tmpDir mdfile"
    and tree: "is_tree fsF tmpDir"
  shows "(\<forall>q. lookup fsF (dir @ q) = map_option (copied (umask w0)) (lookup fsF (tmpDir @ q)))
     \<and> lookup fsF (dir @ [''.git'']) \<noteq> None"
proof -
  let ?fs6 = "RemoveAll dir (files w5)"
  from copyDir_frame_both(1) [rule_format, OF cp] have fr: "frame dir ?fs6 fs7" .
  have s76: "lookup fs7 (tmpDir @ q) = lookup ?fs6 (tmpDir @ q)" for q
  proof (rule frame_exact [OF fr])
    from disjoint_below [OF ndt ntd, of "[]" q] show "\<not> prefix dir (tmpDir @ q)" by simp
    from disjoint_below [OF ntd ndt, of q "[]"]
    show "lookup ?fs6 (tmpDir @ q) \<noteq> None \<or> \<not> prefix (tmpDir @ q) dir" by simp
  qed
  have sF: "lookup fsF (tmpDir @ q) = lookup ?fs6 (tmpDir @ q)" for q
  proof -
    from ntm have "tmpDir @ q \<noteq> mdfile" by auto
    from fin [OF this] s76 show ?thesis by simp
  qed
  have dF: "lookup fsF (dir @ q) = lookup fs7 (dir @ q)" for q
  proof -
    from ndm have "dir @ q \<noteq> mdfile" by auto
    from fin [OF this] show ?thesis .
  qed
  from is_tree_closed_below [OF tree] have "closed_below fsF tmpDir" .
  from closed_below_cong [OF this sF [symmetric]] have cb: "closed_below ?fs6 tmpDir" .
  have emp: "\<forall>q. lookup ?fs6 (dir @ q) = None" by (simp add: lookup_RemoveAll)
  from copyDir_correct [OF cp ndt ntd cb emp]
  have k: "\<forall>q. lookup fs7 (dir @ q) = map_option (copied (umask w0)) (lookup ?fs6 (tmpDir @ q))" .
  have a: "\<forall>q. lookup fsF (dir @ q) = map_option (copied (umask w0)) (lookup fsF (tmpDir @ q))"
    using k dF sF by simp
  from Fetch_clone_Inr [OF c] have "lookup (files w5) (tmpDir @ [''.git'']) \<noteq> None" by blast
  moreover from disjoint_below [OF ndt ntd, of "[]" "[''.git'']"] have "\<not> prefix dir (tmpDir @ [''.git''])" by simp
  ultimately have "lookup ?fs6 (tmpDir @ [''.git'']) \<noteq> None" by (simp add: lookup_RemoveAll)
  with sF [of "[''.git'']"] have "lookup fsF (tmpDir @ [''.git'']) \<noteq> None" by simp
  with a have "lookup fsF (dir @ [''.git'']) \<noteq> None" by simp
  with a show ?thesis by blast
qed

text \<open>
  C2, as the code has it. \<open>copyDir\<close> copies the whole scratch directory, and the
  repository was initialised in it, so its \<open>.git\<close> directory is copied too. After a
  successful \<open>Fetch\<close> (destination and scratch directory not inside one another, the
  metadata file outside both, the scratch directory a tree) the destination holds, at
  every relative path, what the scratch directory holds there and nothing else: a file
  with the same content and permission bits, a directory with the source's permission
  bits less the umask. In particular the destination has an entry \<open>.git\<close>.
\<close>

theorem destination_is_copy_of_scratch_directory:
  assumes f: "Fetch fuel E dir gitURL gitRevision metadataDir w0 = Some (None, w')"
    and m: "MkdirTemp (umask w0) (TempDir E) ''git-clone-'' (temp_names E) (files w0) = (Inr tmpDir, fs1)"
    and ndt: "\<not> prefix dir tmpDir" and ntd: "\<not> prefix tmpDir dir"
    and ndm: "\<not> prefix dir (metadataDir @ [''project-metadata.toml''])"
    and ntm: "\<not> prefix tmpDir (metadataDir @ [''project-metadata.toml''])"
    and tree: "is_tree (files w') tmpDir"
  shows "(\<forall>q. lookup (files w') (dir @ q) = map_option (copied (umask w0)) (lookup (files w') (tmpDir @ q)))
     \<and> lookup (files w') (dir @ [''.git'']) \<noteq> None"
proof -
  let ?md = "metadataDir @ [''project-metadata.toml'']"
  from Fetch_success [OF f] obtain t h w5 fs7 fs8 enc where
    c: "Fetch_clone E gitURL gitRevision w0 = Inr (t, h, w5)" and
    cp: "copyDir fuel (umask w0) dir t (RemoveAll dir (files w5)) = Some (None, fs7)" and
    cr: "Create (umask w0) ?md fs7 = (None, fs8)" and
    fw: "files w' = write_file ?md enc fs8"
    by blast
  from Fetch_clone_Inr [OF c] m have t: "t = tmpDir" by auto
  have fin: "lookup (files w') p = lookup fs7 p" if "p \<noteq> ?md" for p
    using that fw Create_lookup [OF cr that] by (simp add: write_file_lookup)
  from materialized [OF c [unfolded t] cp [unfolded t] fin ndt ntd ndm ntm tree] show ?thesis .
qed

text \<open>
  C2 as stated fails on the example: after the successful run the destination has the
  directory \<open>.git\<close> of the scratch clone.
\<close>

theorem git_directory_is_copied_into_destination:
  "outcome_at [''workspace'', ''.git'']
     (Fetch 5 env0 [''workspace''] ''https://x/r.git'' ''main'' [''platform''] world0) =
   Some (None, Some (Dir 493))"
  by code_simp

theorem destination_is_copy_of_scratch_directory_witness:
  "\<exists>w'. Fetch 5 env0 [''workspace''] ''https://x/r.git'' ''main'' [''platform''] world0 = Some (None, w')
     \<and> lookup (files w') [''workspace'', ''src'', ''main.go''] = Some (File 493 ''package main'')
     \<and> lookup (files w') [''workspace'', ''old.txt''] = None
     \<and> lookup (files w') [''workspace'', ''.git''] \<noteq> None"
proof -
  from outcome_filesD [OF run_ok_files] obtain w' where
    f: "Fetch 5 env0 [''workspace''] ''https://x/r.git'' ''main'' [''platform''] world0 = Some (None, w')"
    and fl: "files w' = files_after"
    by auto
  have tree: "is_tree (files w') [''tmp'', ''git-clone-001'']"
    using is_tree_files_after fl by simp
  have p: "\<not> prefix [''workspace''] [''tmp'', ''git-clone-001'']"
      "\<not> prefix [''tmp'', ''git-clone-001''] [''workspace'']"
      "\<not> prefix [''workspace''] ([''platform''] @ [''project-metadata.toml''])"
      "\<not> prefix [''tmp'', ''git-clone-001''] ([''platform''] @ [''project-metadata.toml''])"
    by simp_all
  from destination_is_copy_of_scratch_directory [OF f MkdirTemp_env0 p tree] have
    a: "\<forall>q. lookup (files w') ([''workspace''] @ q) =
          map_option (copied (umask world0)) (lookup (files w') ([''tmp'', ''git-clone-001''] @ q))"
    and g: "lookup (files w') ([''workspace''] @ [''.git'']) \<noteq> None"
    by blast+
  from a [rule_format, of "[''src'', ''main.go'']"] fl
  have s: "lookup (files w') [''workspace'', ''src'', ''main.go''] = Some (File 493 ''package main'')"
    by (simp add: files_after_def lookup_def)
  from a [rule_format, of "[''old.txt'']"] fl
  have o: "lookup (files w') [''workspace'', ''old.txt''] = None"
    by (simp add: files_after_def lookup_def)
  from f s o g show ?thesis by auto
qed

lemma Fetch_metadata_failure:
  assumes c: "Fetch_clone E gitURL gitRevision w0 = Inr (t, h, w5)"
    and f: "Fetch fuel E dir gitURL gitRevision metadataDir w0 =
              Some (Some (Wrap e (CtxInvalidMetadataDestination metadataDir x)), w')"
  shows "\<exists>fs7. copyDir fuel (umask w0) dir t (RemoveAll dir (files w5)) = Some (None, fs7) \<and>
     ((Create (umask w0) (metadataDir @ [''project-metadata.toml'']) fs7 = (Some e, fs7) \<and> files w' = fs7) \<or>
      (Create (umask w0) (metadataDir @ [''project-metadata.toml'']) fs7 = (None, files w')))"
  using assms
  by (auto simp: Fetch_phases split: option.splits prod.splits sum.splits dest: Create_err)

text \<open>
  C9. When the stages up to the checkout succeed and \<open>Fetch\<close> returns the error of the
  metadata stage (the file cannot be created, or the encoder fails), the destination has
  already been replaced: it holds the copy of the scratch directory, while the metadata
  file is empty or cannot be created. The witness is such a run: the old file of the
  destination is gone, the new tree is there, no metadata file exists, and \<open>Fetch\<close>
  returns an error.
\<close>

theorem metadata_failure_leaves_destination_replaced:
  assumes cs: "clone_succeeds E gitURL gitRevision w0"
    and f: "Fetch fuel E dir gitURL gitRevision metadataDir w0 =
              Some (Some (Wrap e (CtxInvalidMetadataDestination metadataDir x)), w')"
    and m: "MkdirTemp (umask w0) (TempDir E) ''git-clone-'' (temp_names E) (files w0) = (Inr tmpDir, fs1)"
    and ndt: "\<not> prefix dir tmpDir" and ntd: "\<not> prefix tmpDir dir"
    and ndm: "\<not> prefix dir (metadataDir @ [''project-metadata.toml''])"
    and ntm: "\<not> prefix tmpDir (metadataDir @ [''project-metadata.toml''])"
    and tree: "is_tree (files w') tmpDir"
  shows "(\<forall>q. lookup (files w') (dir @ q) = map_option (copied (umask w0)) (lookup (files w') (tmpDir @ q)))
     \<and> lookup (files w') (dir @ [''.git'']) \<noteq> None
     \<and> ((\<exists>mo. lookup (files w') (metadataDir @ [''project-metadata.toml'']) = Some (File mo []))
         \<or> Create (umask w0) (metadataDir @ [''project-metadata.toml'']) (files w') = (Some e, files w'))"
proof -
  let ?md = "metadataDir @ [''project-metadata.toml'']"
  from clone_succeeds_Inr [OF cs] obtain t h w5 where
    c: "Fetch_clone E gitURL gitRevision w0 = Inr (t, h, w5)" by blast
  from Fetch_clone_Inr [OF c] m have t: "t = tmpDir" by auto
  from Fetch_metadata_failure [OF c f] obtain fs7 where
    cp: "copyDir fuel (umask w0) dir t (RemoveAll dir (files w5)) = Some (None, fs7)" and
    cr: "(Create (umask w0) ?md fs7 = (Some e, fs7) \<and> files w' = fs7) \<or>
         Create (umask w0) ?md fs7 = (None, files w')"
    by blast
  have fin: "lookup (files w') p = lookup fs7 p" if "p \<noteq> ?md" for p
    using cr
  proof
    assume "Create (umask w0) ?md fs7 = (Some e, fs7) \<and> files w' = fs7"
    then show ?thesis by simp
  next
    assume "Create (umask w0) ?md fs7 = (None, files w')"
    from Create_lookup [OF this that] show ?thesis .
  qed
  note mat = materialized [OF c [unfolded t] cp [unfolded t] fin ndt ntd ndm ntm tree]
  have "(\<exists>mo. lookup (files w') ?md = Some (File mo [])) \<or> Create (umask w0) ?md (files w') = (Some e, files w')"
    using cr
  proof
    assume "Create (umask w0) ?md fs7 = (Some e, fs7) \<and> files w' = fs7"
    then show ?thesis by simp
  next
    assume "Create (umask w0) ?md fs7 = (None, files w')"
    from Create_ok [OF this] show ?thesis by blast
  qed
  with mat show ?thesis by blast
qed

theorem metadata_failure_leaves_destination_replaced_witness:
  "\<exists>w'. Fetch 5 env0 [''workspace''] ''https://x/r.git'' ''main'' [''nowhere''] world0 =
           Some (Some (Wrap (ENOENT [''nowhere'', ''project-metadata.toml''])
                         (CtxInvalidMetadataDestination [''nowhere''] ''https://x/r.git'')), w')
     \<and> lookup (files world0) [''workspace'', ''old.txt''] = Some (File 420 ''old'')
     \<and> lookup (files w') [''workspace'', ''old.txt''] = None
     \<and> lookup (files w') [''workspace'', ''README''] = Some (File 420 ''hello'')
     \<and> lookup (files w') [''workspace'', ''.git''] \<noteq> None
     \<and> lookup (files w') [''nowhere'', ''project-metadata.toml''] = None"
proof -
  from outcome_filesD [OF run_nowhere_files] obtain w' where
    f: "Fetch 5 env0 [''workspace''] ''https://x/r.git'' ''main'' [''nowhere''] world0 =
           Some (Some (Wrap (ENOENT [''nowhere'', ''project-metadata.toml''])
                         (CtxInvalidMetadataDestination [''nowhere''] ''https://x/r.git'')), w')"
    and fl: "files w' = files_after_failure"
    by auto
  have tree: "is_tree (files w') [''tmp'', ''git-clone-001'']"
    using is_tree_files_after_failure fl by simp
  have p: "\<not> prefix [''workspace''] [''tmp'', ''git-clone-001'']"
      "\<not> prefix [''tmp'', ''git-clone-001''] [''workspace'']"
      "\<not> prefix [''workspace''] ([''nowhere''] @ [''project-metadata.toml''])"
      "\<not> prefix [''tmp'', ''git-clone-001''] ([''nowhere''] @ [''project-metadata.toml''])"
    by simp_all
  from metadata_failure_leaves_destination_replaced [OF clone_main f MkdirTemp_env0 p tree] have
    a: "\<forall>q. lookup (files w') ([''workspace''] @ q) =
          map_option (copied (umask world0)) (lookup (files w') ([''tmp'', ''git-clone-001''] @ q))"
    and g: "lookup (files w') ([''workspace''] @ [''.git'']) \<noteq> None"
    by blast+
  from a [rule_format, of "[''README'']"] fl
  have s: "lookup (files w') [''workspace'', ''README''] = Some (File 420 ''hello'')"
    by (simp add: files_after_failure_def files_after_def lookup_def)
  from a [rule_format, of "[''old.txt'']"] fl
  have o: "lookup (files w') [''workspace'', ''old.txt''] = None"
    by (simp add: files_after_failure_def files_after_def lookup_def)
  have b: "lookup (files world0) [''workspace'', ''old.txt''] = Some (File 420 ''old'')"
    by (simp add: world0_def fs0_def lookup_def)
  have n: "lookup (files w') [''nowhere'', ''project-metadata.toml''] = None"
    using fl by (simp add: files_after_failure_def files_after_def lookup_def)
  from f s o g b n show ?thesis by auto
qed

end
